theory Spec2Isabelle
  imports Complex_Main "HOL-Library.Word"
begin

unbundle bit_operations_syntax

section \<open>Data model\<close>

text \<open>
  The repository holds two generations of the DID codec of package \<open>core\<close>:
  the file appended to \<open>src/utils/utils.go\<close>, where a \<open>DIDMethod\<close> is a byte, and
  \<open>src/unnamed/part_000\<close>, where a \<open>DIDMethod\<close> is a string. Definitions taken from
  \<open>part_000\<close> carry the suffix \<open>_p0\<close>; the others are from \<open>src/utils/utils.go\<close>.
  Go errors are values: a result is \<open>error + 'a\<close>, with \<open>Inl\<close> the error.
\<close>

type_synonym byte = "8 word"

text \<open>The sentinel errors declared with \<open>errors.New\<close> in both files.\<close>

datatype sentinel =
    ErrUnsupportedID
  | ErrIncorrectDID
  | ErrMethodUnknown
  | ErrDIDMethodNotSupported
  | ErrBlockchainNotSupportedForDID
  | ErrNetworkNotSupportedForDID
  | ErrInvalidDID

text \<open>
  An error is a sentinel returned as it is, a sentinel wrapped by
  \<open>fmt.Errorf("%w: ...")\<close> with the text after the colon, or an error made on the spot
  (\<open>errors.New\<close>, or an error of a collaborator outside the repository) of which only the
  message is known.
\<close>

datatype error =
    Bare sentinel
  | Wrapped sentinel string
  | Other string

fun errors_Is :: "error \<Rightarrow> sentinel \<Rightarrow> bool" where
  "errors_Is (Bare s) t = (s = t)"
| "errors_Is (Wrapped s m) t = (s = t)"
| "errors_Is (Other m) t = False"

type_synonym Blockchain = string
type_synonym NetworkID = string

definition Ethereum :: Blockchain where "Ethereum = ''eth''"
definition Polygon :: Blockchain where "Polygon = ''polygon''"
definition UnknownChain :: Blockchain where "UnknownChain = ''unknown''"
definition ReadOnly :: Blockchain where "ReadOnly = ''readonly''"
definition NoChain :: Blockchain where "NoChain = ''''"

definition Main :: NetworkID where "Main = ''main''"
definition Mumbai :: NetworkID where "Mumbai = ''mumbai''"
definition Goerli :: NetworkID where "Goerli = ''goerli''"
definition UnknownNetwork :: NetworkID where "UnknownNetwork = ''unknown''"
definition NoNetwork :: NetworkID where "NoNetwork = ''''"

record DIDNetworkFlag =
  Blockchain :: Blockchain
  NetworkID :: NetworkID

section \<open>The type table of \<open>src/utils/utils.go\<close> (methods are bytes)\<close>

type_synonym DIDMethod = byte

definition DIDMethodIden3 :: DIDMethod where "DIDMethodIden3 = 0b00000001"
definition DIDMethodPolygonID :: DIDMethod where "DIDMethodPolygonID = 0b00000010"
definition DIDMethodPolygonIDOnChain :: DIDMethod where "DIDMethodPolygonIDOnChain = 0b10000010"
definition DIDMethodOther :: DIDMethod where "DIDMethodOther = 0b11111111"

text \<open>\<open>knownMethods\<close> is a Go map used as a set; its keys, in the order of the source.\<close>

definition knownMethods :: "DIDMethod list" where
  "knownMethods = [DIDMethodIden3, DIDMethodPolygonID]"

text \<open>\<open>%v\<close> of an unsigned integer: its decimal digits.\<close>

fun decimal :: "nat \<Rightarrow> string" where
  "decimal n =
     (if n < 10 then [char_of (48 + n)]
      else decimal (n div 10) @ [char_of (48 + n mod 10)])"

declare decimal.simps [simp del]

definition DIDMethod_String :: "DIDMethod \<Rightarrow> string" where
  "DIDMethod_String m =
     (if m = DIDMethodIden3 then ''iden3''
      else if m = DIDMethodPolygonID then ''polygonid''
      else if m = DIDMethodOther then ''''
      else ''unknown<'' @ decimal (unat m) @ ''>'')"

text \<open>
  \<open>DIDMethodNetwork\<close>, a Go map of maps, as association lists in the order of the
  source. \<open>m[k]\<close> on a Go map is \<open>map_of\<close>; indexing the nil map that a missing
  method gives finds nothing, which \<open>networks_of\<close> renders by the empty list.
\<close>

definition DIDMethodNetwork_entries :: "(DIDMethod \<times> (DIDNetworkFlag \<times> byte) list) list" where
  "DIDMethodNetwork_entries =
     [(DIDMethodIden3,
        [(\<lparr>Blockchain = ReadOnly, NetworkID = NoNetwork\<rparr>, 0b00000000),
         (\<lparr>Blockchain = Polygon, NetworkID = Main\<rparr>, 0b00010000 OR 0b00000001),
         (\<lparr>Blockchain = Polygon, NetworkID = Mumbai\<rparr>, 0b00010000 OR 0b00000010),
         (\<lparr>Blockchain = Ethereum, NetworkID = Main\<rparr>, 0b00100000 OR 0b00000001),
         (\<lparr>Blockchain = Ethereum, NetworkID = Goerli\<rparr>, 0b00100000 OR 0b00000010)]),
      (DIDMethodPolygonID,
        [(\<lparr>Blockchain = ReadOnly, NetworkID = NoNetwork\<rparr>, 0b00000000),
         (\<lparr>Blockchain = Polygon, NetworkID = Main\<rparr>, 0b00010000 OR 0b00000001),
         (\<lparr>Blockchain = Polygon, NetworkID = Mumbai\<rparr>, 0b00010000 OR 0b00000010),
         (\<lparr>Blockchain = Ethereum, NetworkID = Main\<rparr>, 0b00100000 OR 0b00000001),
         (\<lparr>Blockchain = Ethereum, NetworkID = Goerli\<rparr>, 0b00100000 OR 0b00000010)]),
      (DIDMethodOther,
        [(\<lparr>Blockchain = UnknownChain, NetworkID = UnknownNetwork\<rparr>, 0b11111111)])]"

definition DIDMethodNetwork :: "DIDMethod \<Rightarrow> (DIDNetworkFlag \<times> byte) list option" where
  "DIDMethodNetwork = map_of DIDMethodNetwork_entries"

definition networks_of :: "DIDMethod \<Rightarrow> (DIDNetworkFlag \<times> byte) list" where
  "networks_of method = (case DIDMethodNetwork method of None \<Rightarrow> [] | Some tbl \<Rightarrow> tbl)"

text \<open>The blockchain that the lookup uses: \<open>NoChain\<close> is replaced by \<open>ReadOnly\<close>.\<close>

definition lookup_chain :: "Blockchain \<Rightarrow> Blockchain" where
  "lookup_chain blockchain = (if blockchain = NoChain then ReadOnly else blockchain)"

text \<open>\<open>BuildDIDType\<close>; the \<open>[2]byte\<close> it returns is a pair of bytes.\<close>

definition BuildDIDType :: "DIDMethod \<Rightarrow> Blockchain \<Rightarrow> NetworkID \<Rightarrow> error + byte \<times> byte" where
  "BuildDIDType method blockchain network =
     (if method \<notin> set knownMethods then Inl (Bare ErrDIDMethodNotSupported)
      else
        let netFlag = \<lparr>Blockchain = lookup_chain blockchain, NetworkID = network\<rparr> in
        case map_of (networks_of method) netFlag of
          None \<Rightarrow> Inl (Bare ErrNetworkNotSupportedForDID)
        | Some sb \<Rightarrow> Inr (method, sb))"

text \<open>
  The loop \<open>for k, v := range table { if v == _v { return k } }\<close>: the key of the first
  entry, in the order the entries are visited, whose value is the byte looked for.
\<close>

fun range_find :: "('k \<times> byte) list \<Rightarrow> byte \<Rightarrow> 'k option" where
  "range_find [] b = None"
| "range_find ((k, v) # kvs) b = (if v = b then Some k else range_find kvs b)"

definition FindNetworkIDForDIDMethodByValue :: "DIDMethod \<Rightarrow> byte \<Rightarrow> error + NetworkID" where
  "FindNetworkIDForDIDMethodByValue method b =
     (case DIDMethodNetwork method of
        None \<Rightarrow> Inl (Bare ErrDIDMethodNotSupported)
      | Some tbl \<Rightarrow>
          (case range_find tbl b of
             Some k \<Rightarrow> Inr (NetworkID k)
           | None \<Rightarrow> Inl (Bare ErrNetworkNotSupportedForDID)))"

definition FindBlockchainForDIDMethodByValue :: "DIDMethod \<Rightarrow> byte \<Rightarrow> error + Blockchain" where
  "FindBlockchainForDIDMethodByValue method b =
     (case DIDMethodNetwork method of
        None \<Rightarrow> Inl (Bare ErrDIDMethodNotSupported)
      | Some tbl \<Rightarrow>
          (case range_find tbl b of
             Some k \<Rightarrow> Inr (Blockchain k)
           | None \<Rightarrow> Inl (Bare ErrBlockchainNotSupportedForDID)))"

section \<open>The type table of \<open>src/unnamed/part_000\<close> (methods are strings)\<close>

type_synonym DIDMethod_p0 = string

definition DIDMethodIden3_p0 :: DIDMethod_p0 where "DIDMethodIden3_p0 = ''iden3''"
definition DIDMethodPolygonID_p0 :: DIDMethod_p0 where "DIDMethodPolygonID_p0 = ''polygonid''"

definition DIDMethodByte_p0 :: "(DIDMethod_p0 \<times> byte) list" where
  "DIDMethodByte_p0 =
     [(DIDMethodIden3_p0, 0b00000001),
      (DIDMethodPolygonID_p0, 0b00000010)]"

definition DIDMethodNetwork_entries_p0 ::
    "(DIDMethod_p0 \<times> (DIDNetworkFlag \<times> byte) list) list" where
  "DIDMethodNetwork_entries_p0 =
     [(DIDMethodIden3_p0,
        [(\<lparr>Blockchain = ReadOnly, NetworkID = NoNetwork\<rparr>, 0b00000000),
         (\<lparr>Blockchain = Polygon, NetworkID = Main\<rparr>, 0b00010000 OR 0b00000001),
         (\<lparr>Blockchain = Polygon, NetworkID = Mumbai\<rparr>, 0b00010000 OR 0b00000010),
         (\<lparr>Blockchain = Ethereum, NetworkID = Main\<rparr>, 0b00100000 OR 0b00000001),
         (\<lparr>Blockchain = Ethereum, NetworkID = Goerli\<rparr>, 0b00100000 OR 0b00000010)]),
      (DIDMethodPolygonID_p0,
        [(\<lparr>Blockchain = ReadOnly, NetworkID = NoNetwork\<rparr>, 0b00000000),
         (\<lparr>Blockchain = Polygon, NetworkID = Main\<rparr>, 0b00010000 OR 0b00000001),
         (\<lparr>Blockchain = Polygon, NetworkID = Mumbai\<rparr>, 0b00010000 OR 0b00000010),
         (\<lparr>Blockchain = Ethereum, NetworkID = Main\<rparr>, 0b00100000 OR 0b00000001),
         (\<lparr>Blockchain = Ethereum, NetworkID = Goerli\<rparr>, 0b00100000 OR 0b00000010)])]"

definition DIDMethodNetwork_p0 :: "DIDMethod_p0 \<Rightarrow> (DIDNetworkFlag \<times> byte) list option" where
  "DIDMethodNetwork_p0 = map_of DIDMethodNetwork_entries_p0"

definition networks_of_p0 :: "DIDMethod_p0 \<Rightarrow> (DIDNetworkFlag \<times> byte) list" where
  "networks_of_p0 method = (case DIDMethodNetwork_p0 method of None \<Rightarrow> [] | Some tbl \<Rightarrow> tbl)"

definition BuildDIDType_p0 ::
    "DIDMethod_p0 \<Rightarrow> Blockchain \<Rightarrow> NetworkID \<Rightarrow> error + byte \<times> byte" where
  "BuildDIDType_p0 method blockchain network =
     (case map_of DIDMethodByte_p0 method of
        None \<Rightarrow> Inl (Bare ErrDIDMethodNotSupported)
      | Some fb \<Rightarrow>
          (case map_of (networks_of_p0 method)
                  \<lparr>Blockchain = lookup_chain blockchain, NetworkID = network\<rparr> of
             None \<Rightarrow> Inl (Bare ErrNetworkNotSupportedForDID)
           | Some sb \<Rightarrow> Inr (fb, sb)))"

definition FindNetworkIDForDIDMethodByValue_p0 ::
    "DIDMethod_p0 \<Rightarrow> byte \<Rightarrow> error + NetworkID" where
  "FindNetworkIDForDIDMethodByValue_p0 method b =
     (case DIDMethodNetwork_p0 method of
        None \<Rightarrow> Inl (Bare ErrDIDMethodNotSupported)
      | Some tbl \<Rightarrow>
          (case range_find tbl b of
             Some k \<Rightarrow> Inr (NetworkID k)
           | None \<Rightarrow> Inl (Bare ErrNetworkNotSupportedForDID)))"

definition FindBlockchainForDIDMethodByValue_p0 ::
    "DIDMethod_p0 \<Rightarrow> byte \<Rightarrow> error + Blockchain" where
  "FindBlockchainForDIDMethodByValue_p0 method b =
     (case DIDMethodNetwork_p0 method of
        None \<Rightarrow> Inl (Bare ErrDIDMethodNotSupported)
      | Some tbl \<Rightarrow>
          (case range_find tbl b of
             Some k \<Rightarrow> Inr (Blockchain k)
           | None \<Rightarrow> Inl (Bare ErrNetworkNotSupportedForDID)))"

definition FindDIDMethodByValue_p0 :: "byte \<Rightarrow> error + DIDMethod_p0" where
  "FindDIDMethodByValue_p0 b =
     (case range_find DIDMethodByte_p0 b of
        Some k \<Rightarrow> Inr k
      | None \<Rightarrow> Inl (Bare ErrDIDMethodNotSupported))"

section \<open>Identifiers\<close>

text \<open>
  An \<open>ID\<close> is the Go array \<open>[31]byte\<close>, here the list of its bytes; a genesis is
  \<open>[genesisLn]byte\<close> and an Ethereum address \<open>[20]byte\<close>. A fresh Go array is all zeros,
  and \<open>copy(dst, src)\<close> overwrites the first \<open>min(len(dst), len(src))\<close> bytes of
  \<open>dst\<close>.
\<close>

type_synonym ID = "byte list"

definition zeros :: "nat \<Rightarrow> byte list" where
  "zeros n = replicate n 0"

definition copy_into :: "byte list \<Rightarrow> byte list \<Rightarrow> byte list" where
  "copy_into dst src = take (length dst) src @ drop (length src) dst"

text \<open>
  Modelled from the spec: the constant \<open>genesisLn\<close> is not in the source; the spec gives
  the genesis field 27 bytes.
\<close>

definition genesisLn :: nat where
  "genesisLn = 27"

text \<open>
  Modelled from the spec: \<open>NewID\<close> and \<open>CheckChecksum\<close> are not in the source. By the
  spec an ID is \<open>[type:2][genesis:27][checksum:2]\<close>, \<open>NewID\<close> appends the computed
  checksum, and the check recomputes the checksum of the first 29 bytes and compares. The
  spec leaves the checksum algorithm open, so it is a parameter \<open>cs\<close> here: a function
  from the type bytes and the genesis to the two checksum bytes.
\<close>

type_synonym checksum = "byte \<times> byte \<Rightarrow> byte list \<Rightarrow> byte \<times> byte"

definition NewID :: "checksum \<Rightarrow> byte \<times> byte \<Rightarrow> byte list \<Rightarrow> ID" where
  "NewID cs typ genesis =
     fst typ # snd typ # genesis @ [fst (cs typ genesis), snd (cs typ genesis)]"

definition CheckChecksum :: "checksum \<Rightarrow> ID \<Rightarrow> bool" where
  "CheckChecksum cs id' =
     (let typ = (id' ! 0, id' ! 1);
          genesis = take genesisLn (drop 2 id');
          c = cs typ genesis
      in drop (2 + genesisLn) id' = [fst c, snd c])"

text \<open>
  Modelled from the spec: the checksum the spec gives as its example, the sum of the 29
  preceding bytes modulo \<open>2 ^ 16\<close>, low byte first. It instantiates \<open>cs\<close> where a
  property is evaluated on concrete bytes.
\<close>

definition sum_checksum :: checksum where
  "sum_checksum typ genesis =
     (let s = (unat (fst typ) + unat (snd typ) + sum_list (map unat genesis)) mod 65536
      in (of_nat (s mod 256), of_nat (s div 256)))"

definition GenesisFromEthAddress :: "byte list \<Rightarrow> byte list" where
  "GenesisFromEthAddress addr =
     (let genesis = zeros genesisLn
      in take 7 genesis @ copy_into (drop 7 genesis) addr)"

definition EthAddressFromID :: "ID \<Rightarrow> error + byte list" where
  "EthAddressFromID id' =
     (let z = zeros 7 in
      if z \<noteq> take (length z) (drop 2 id')
      then Inl (Other ''can't get Ethereum address: high bytes of genesis are not zero'')
      else Inr (copy_into (zeros 20) (drop (2 + 7) id')))"

section \<open>DIDs in \<open>src/utils/utils.go\<close>\<close>

text \<open>
  \<open>didw3c.DID\<close> comes from a package outside the source; the codec reads its fields
  \<open>Method\<close> and \<open>IDStrings\<close> and calls \<open>String()\<close> on it. The collaborators that are
  not in the source are parameters of the functions that call them:
  \<open>IDFromString\<close> (text to ID), \<open>ID_String\<close> (ID to text), \<open>DID_String\<close>
  (\<open>did.String()\<close>), \<open>Parse\<close> (\<open>didw3c.Parse\<close>) and \<open>sha256\<close>
  (\<open>sha256.Sum256\<close>).
\<close>

record DID =
  Method :: string
  IDStrings :: "string list"

definition DIDSchema :: string where
  "DIDSchema = ''did''"

fun strings_Join :: "string list \<Rightarrow> string \<Rightarrow> string" where
  "strings_Join [] sep = []"
| "strings_Join [x] sep = x"
| "strings_Join (x # y # ys) sep = x @ sep @ strings_Join (y # ys) sep"

definition isUnsupportedDID :: "DIDMethod \<Rightarrow> Blockchain \<Rightarrow> NetworkID \<Rightarrow> bool" where
  "isUnsupportedDID method blockchain networkID \<longleftrightarrow>
     method = DIDMethodOther \<and> blockchain = UnknownChain \<and> networkID = UnknownNetwork"

definition decodeDIDPartsFromID :: "ID \<Rightarrow> error + DIDMethod \<times> Blockchain \<times> NetworkID" where
  "decodeDIDPartsFromID id' =
     (let method = id' ! 0; networkByte = id' ! 1 in
      case FindBlockchainForDIDMethodByValue method networkByte of
        Inl err \<Rightarrow> Inl err
      | Inr blockchain \<Rightarrow>
          (case FindNetworkIDForDIDMethodByValue method networkByte of
             Inl err \<Rightarrow> Inl err
           | Inr networkID \<Rightarrow> Inr (method, blockchain, networkID)))"

definition idFromDID :: "checksum \<Rightarrow> (string \<Rightarrow> error + ID) \<Rightarrow> DID \<Rightarrow> error + ID" where
  "idFromDID cs IDFromString did =
     (if \<not> list_ex (\<lambda>method. DIDMethod_String method = Method did) knownMethods
      then Inl (Bare ErrMethodUnknown)
      else if length (IDStrings did) > 3 \<or> length (IDStrings did) < 1
      then Inl (Wrapped ErrIncorrectDID ''unexpected number of ID strings'')
      else
        case IDFromString (IDStrings did ! (length (IDStrings did) - 1)) of
          Inl err \<Rightarrow> Inl (Wrapped ErrIncorrectDID ''can't parse ID string'')
        | Inr id' \<Rightarrow>
            if \<not> CheckChecksum cs id'
            then Inl (Wrapped ErrIncorrectDID ''incorrect ID checksum'')
            else
              case decodeDIDPartsFromID id' of
                Inl err \<Rightarrow> Inl err
              | Inr (method, blockchain, networkID) \<Rightarrow>
                  if DIDMethod_String method \<noteq> Method did
                  then Inl (Wrapped ErrIncorrectDID ''methods in ID and DID are different'')
                  else if length (IDStrings did) > 1 \<and> blockchain \<noteq> IDStrings did ! 0
                  then Inl (Wrapped ErrIncorrectDID ''blockchains in ID and DID are different'')
                  else if length (IDStrings did) > 2 \<and> networkID \<noteq> IDStrings did ! 1
                  then Inl (Wrapped ErrIncorrectDID ''networkIDs in ID and DID are different'')
                  else Inr id')"

definition newIDFromUnsupportedDID ::
    "checksum \<Rightarrow> (string \<Rightarrow> byte list) \<Rightarrow> (DID \<Rightarrow> string) \<Rightarrow> DID \<Rightarrow> ID" where
  "newIDFromUnsupportedDID cs sha256 DID_String did =
     (let hash = sha256 (DID_String did);
          genesis = copy_into (zeros genesisLn) (drop (length hash - genesisLn) hash);
          flg = \<lparr>Blockchain = UnknownChain, NetworkID = UnknownNetwork\<rparr>;
          tp = (DIDMethodOther,
                case map_of (networks_of DIDMethodOther) flg of None \<Rightarrow> 0 | Some v \<Rightarrow> v)
      in NewID cs tp genesis)"

definition IDFromDID ::
    "checksum \<Rightarrow> (string \<Rightarrow> error + ID) \<Rightarrow> (string \<Rightarrow> byte list) \<Rightarrow> (DID \<Rightarrow> string) \<Rightarrow>
     DID \<Rightarrow> error + ID" where
  "IDFromDID cs IDFromString sha256 DID_String did =
     (case idFromDID cs IDFromString did of
        Inl err \<Rightarrow>
          if errors_Is err ErrMethodUnknown
          then Inr (newIDFromUnsupportedDID cs sha256 DID_String did)
          else Inl err
      | Inr id' \<Rightarrow> Inr id')"

definition ParseDIDFromID ::
    "checksum \<Rightarrow> (ID \<Rightarrow> string) \<Rightarrow> (string \<Rightarrow> error + DID) \<Rightarrow> ID \<Rightarrow> error + DID" where
  "ParseDIDFromID cs ID_String Parse id' =
     (if \<not> CheckChecksum cs id' then Inl (Wrapped ErrUnsupportedID ''invalid checksum'')
      else
        case decodeDIDPartsFromID id' of
          Inl err \<Rightarrow> Inl err
        | Inr (method, blockchain, networkID) \<Rightarrow>
            if isUnsupportedDID method blockchain networkID
            then Inl (Wrapped ErrMethodUnknown ''unsupported DID'')
            else
              let didParts = [DIDSchema, DIDMethod_String method, blockchain];
                  didParts = (if networkID \<noteq> [] then didParts @ [networkID] else didParts);
                  didParts = didParts @ [ID_String id'];
                  didString = strings_Join didParts '':''
              in Parse didString)"

section \<open>DIDs in \<open>src/unnamed/part_000\<close>\<close>

text \<open>The text of an error, as \<open>%v\<close> prints it.\<close>

fun sentinel_text :: "sentinel \<Rightarrow> string" where
  "sentinel_text ErrUnsupportedID = ''unsupported ID''"
| "sentinel_text ErrIncorrectDID = ''incorrect DID''"
| "sentinel_text ErrMethodUnknown = ''unknown DID method''"
| "sentinel_text ErrDIDMethodNotSupported = ''not supported did method''"
| "sentinel_text ErrBlockchainNotSupportedForDID = ''not supported blockchain''"
| "sentinel_text ErrNetworkNotSupportedForDID = ''not supported network''"
| "sentinel_text ErrInvalidDID = ''invalid did format''"

fun error_text :: "error \<Rightarrow> string" where
  "error_text (Bare s) = sentinel_text s"
| "error_text (Wrapped s m) = sentinel_text s @ '': '' @ m"
| "error_text (Other m) = m"

text \<open>
  Modelled from the spec: the methods \<open>MethodByte\<close> and \<open>BlockchainNetworkByte\<close> of
  \<open>ID\<close> are not in the source; by the spec the type field is the method byte followed by
  the blockchain/network byte, the first two bytes of the ID.
\<close>

definition MethodByte :: "ID \<Rightarrow> byte" where
  "MethodByte id' = id' ! 0"

definition BlockchainNetworkByte :: "ID \<Rightarrow> byte" where
  "BlockchainNetworkByte id' = id' ! 1"

definition decodeDIDPartsFromID_p0 :: "ID \<Rightarrow> error + DIDMethod_p0 \<times> Blockchain \<times> NetworkID" where
  "decodeDIDPartsFromID_p0 id' =
     (let methodByte = MethodByte id'; networkByte = BlockchainNetworkByte id' in
      case FindDIDMethodByValue_p0 methodByte of
        Inl err \<Rightarrow> Inl err
      | Inr method \<Rightarrow>
          (case FindBlockchainForDIDMethodByValue_p0 method networkByte of
             Inl err \<Rightarrow> Inl err
           | Inr blockchain \<Rightarrow>
               (case FindNetworkIDForDIDMethodByValue_p0 method networkByte of
                  Inl err \<Rightarrow> Inl err
                | Inr networkID \<Rightarrow> Inr (method, blockchain, networkID))))"

definition decodeIDFromDID_p0 :: "checksum \<Rightarrow> (string \<Rightarrow> error + ID) \<Rightarrow> DID \<Rightarrow> error + ID" where
  "decodeIDFromDID_p0 cs IDFromString did =
     (if length (IDStrings did) > 3 then Inl (Wrapped ErrInvalidDID ''too many fields'')
      else if length (IDStrings did) < 1 then Inl (Wrapped ErrInvalidDID ''no ID field in DID'')
      else
        case IDFromString (IDStrings did ! (length (IDStrings did) - 1)) of
          Inl err \<Rightarrow> Inl (Wrapped ErrInvalidDID (error_text err))
        | Inr id' \<Rightarrow>
            if \<not> CheckChecksum cs id' then Inl (Wrapped ErrInvalidDID ''invalid checksum'')
            else Inr id')"

definition method_mismatch :: "string \<Rightarrow> string \<Rightarrow> error" where
  "method_mismatch method did_method =
     Wrapped ErrInvalidDID
       (''method mismatch: found '' @ method @ '' in ID but '' @ did_method @ '' in DID'')"

definition blockchain_mismatch :: "string \<Rightarrow> string \<Rightarrow> error" where
  "blockchain_mismatch blockchain segment =
     Wrapped ErrInvalidDID
       (''blockchain mismatch: found '' @ blockchain @ '' in ID but '' @ segment @ '' in DID'')"

definition network_mismatch :: "string \<Rightarrow> string \<Rightarrow> error" where
  "network_mismatch networkID segment =
     Wrapped ErrInvalidDID
       (''network ID mismatch: found '' @ networkID @ '' in ID but '' @ segment @ '' in DID'')"

definition Decompose_p0 ::
    "checksum \<Rightarrow> (string \<Rightarrow> error + ID) \<Rightarrow> DID \<Rightarrow> error + Blockchain \<times> NetworkID \<times> ID" where
  "Decompose_p0 cs IDFromString did =
     (case decodeIDFromDID_p0 cs IDFromString did of
        Inl err \<Rightarrow> Inl err
      | Inr id' \<Rightarrow>
          (case decodeDIDPartsFromID_p0 id' of
             Inl err \<Rightarrow> Inl err
           | Inr (method, blockchain, networkID) \<Rightarrow>
               if method \<noteq> Method did
               then Inl (method_mismatch method (Method did))
               else if length (IDStrings did) > 1 \<and> blockchain \<noteq> IDStrings did ! 0
               then Inl (blockchain_mismatch blockchain (IDStrings did ! 0))
               else if length (IDStrings did) > 2 \<and> networkID \<noteq> IDStrings did ! 1
               then Inl (network_mismatch networkID (IDStrings did ! 1))
               else Inr (blockchain, networkID, id')))"

definition IDFromDID_p0 :: "checksum \<Rightarrow> (string \<Rightarrow> error + ID) \<Rightarrow> DID \<Rightarrow> error + ID" where
  "IDFromDID_p0 cs IDFromString did =
     (case Decompose_p0 cs IDFromString did of
        Inl err \<Rightarrow> Inl err
      | Inr (blockchain, networkID, id') \<Rightarrow> Inr id')"

section \<open>Proof of work\<close>

text \<open>
  A Go slice expression \<open>s[0:hi]\<close> panics unless \<open>0 \<le> hi \<le> cap(s)\<close>. A panic is a
  value of its own type: \<open>CheckPoW\<close> returns no error, it returns or panics.
\<close>

datatype panic = SliceBoundsOutOfRange

definition slice_upto :: "'a list \<Rightarrow> int \<Rightarrow> panic + 'a list" where
  "slice_upto s hi =
     (if hi < 0 \<or> int (length s) < hi then Inl SliceBoundsOutOfRange
      else Inr (take (nat hi) s))"

text \<open>
  Modelled from the spec: the type \<open>Hash\<close> and its method \<open>Bytes\<close> are not in the
  source. A hash is given here by the bytes that \<open>hash.Bytes()\<close> returns, 32 of them for
  the 32-byte digest that the code compares with \<open>[32]byte\<close>.
\<close>

type_synonym Hash = "byte list"

definition CheckPoW :: "Hash \<Rightarrow> int \<Rightarrow> panic + bool" where
  "CheckPoW hash difficulty =
     (let empty32 = zeros 32 in
      case slice_upto hash difficulty of
        Inl p \<Rightarrow> Inl p
      | Inr h \<Rightarrow>
          (case slice_upto empty32 difficulty of
             Inl p \<Rightarrow> Inl p
           | Inr e \<Rightarrow> if h \<noteq> e then Inr False else Inr True))"

text \<open>
  The spec's \<open>LeadingZeroBits\<close>, written from the spec's words and not from the code:
  the number of zero bits before the first one bit, the bits of each byte taken from the
  most significant down, byte after byte.
\<close>

definition byte_bits :: "byte \<Rightarrow> bool list" where
  "byte_bits b = map (bit b) [7, 6, 5, 4, 3, 2, 1, 0]"

definition LeadingZeroBits :: "byte list \<Rightarrow> nat" where
  "LeadingZeroBits hash = length (takeWhile Not (concat (map byte_bits hash)))"

section \<open>Timestamps\<close>

text \<open>
  \<open>VerifyTimestamp\<close> reads the clock and calls package \<open>time\<close> of the Go library,
  which is not part of the source. The clock reading is the parameter \<open>now\<close>, and an
  instant is an integer, the nanoseconds since the Unix epoch. The library functions are
  modelled as the library computes them:
  \<^item> \<open>time.Unix(sec, nsec)\<close>, for \<open>0 \<le> nsec < 10^9\<close>, stores \<open>sec + unixToInternal\<close>
    in an \<open>int64\<close>, which wraps around for the largest values of \<open>sec\<close>;
  \<^item> \<open>time.Since(t)\<close> is \<open>now - t\<close> as a \<open>Duration\<close>, an \<open>int64\<close> of nanoseconds;
    a difference outside the range becomes the least or the greatest \<open>Duration\<close>;
  \<^item> \<open>d.Seconds()\<close> is \<open>float64(d / Second) + float64(d % Second) / 1e9\<close>, with Go's
    truncating division and every operation rounded to \<open>float64\<close>;
  \<^item> \<open>int(x)\<close> drops the fraction of \<open>x\<close>, towards zero.
  A \<open>uint64\<close> is a \<open>64 word\<close>, and \<open>int64(timestamp)\<close> is its signed reading. Go's
  \<open>int\<close> is taken to have 64 bits.
\<close>

definition int64_wrap :: "int \<Rightarrow> int" where
  "int64_wrap x = (x + 2 ^ 63) mod 2 ^ 64 - 2 ^ 63"

definition unixToInternal :: int where
  "unixToInternal = (1969 * 365 + 1969 div 4 - 1969 div 100 + 1969 div 400) * 86400"

definition Second :: int where
  "Second = 1000000000"

definition time_Unix :: "int \<Rightarrow> int \<Rightarrow> int" where
  "time_Unix sec nsec = (int64_wrap (sec + unixToInternal) - unixToInternal) * Second + nsec"

definition minDuration :: int where
  "minDuration = - (2 ^ 63)"

definition maxDuration :: int where
  "maxDuration = 2 ^ 63 - 1"

definition time_Since :: "int \<Rightarrow> int \<Rightarrow> int" where
  "time_Since now t =
     (let d = now - t in
      if d < minDuration then minDuration
      else if maxDuration < d then maxDuration
      else d)"

text \<open>Go's \<open>/\<close> and \<open>%\<close> on integers truncate towards zero.\<close>

definition go_quot :: "int \<Rightarrow> int \<Rightarrow> int" where
  "go_quot a b =
     (if (a < 0) = (b < 0) then \<bar>a\<bar> div \<bar>b\<bar> else - (\<bar>a\<bar> div \<bar>b\<bar>))"

definition go_rem :: "int \<Rightarrow> int \<Rightarrow> int" where
  "go_rem a b = a - b * go_quot a b"

text \<open>
  The rounding of a real to \<open>float64\<close>: to the nearest number with 53 significant
  bits, a tie to the one whose last bit is zero. The limits of the exponent of a
  \<open>float64\<close> are left out; the seconds of a \<open>Duration\<close> are far from them.
\<close>

definition round_half_even :: "real \<Rightarrow> int" where
  "round_half_even z =
     (let f = \<lfloor>z\<rfloor>; r = z - of_int f in
      if r < 1 / 2 then f
      else if 1 / 2 < r then f + 1
      else if even f then f else f + 1)"

definition float64_round :: "real \<Rightarrow> real" where
  "float64_round x =
     (if x = 0 then 0
      else
        let e = \<lfloor>log 2 \<bar>x\<bar>\<rfloor>;
            ulp = 2 powr (of_int e - 52)
        in sgn x * (of_int (round_half_even (\<bar>x\<bar> / ulp)) * ulp))"

definition Duration_Seconds :: "int \<Rightarrow> real" where
  "Duration_Seconds d =
     (let sec = go_quot d Second;
          nsec = go_rem d Second
      in float64_round (float64_round (of_int sec) + float64_round (float64_round (of_int nsec) / 1000000000)))"

definition int_of_float :: "real \<Rightarrow> int" where
  "int_of_float x = (if 0 \<le> x then \<lfloor>x\<rfloor> else \<lceil>x\<rceil>)"

definition VerifyTimestamp :: "int \<Rightarrow> 64 word \<Rightarrow> int \<Rightarrow> bool" where
  "VerifyTimestamp now timestamp timelimit =
     (let t = time_Unix (sint timestamp) 10;
          elapsed = time_Since now t
      in if int_of_float (Duration_Seconds elapsed) > timelimit then False else True)"

section \<open>Stand-ins for the collaborators\<close>

text \<open>
  The properties below hold for every checksum function, ID parser, DID renderer and
  digest. Where one of them is evaluated on concrete input, these stand in for the
  collaborators that are not in the source: a parser that knows the ID strings of a
  finite table and rejects every other string, a renderer that joins the parts of a DID
  with colons, and a 32-byte digest that depends on the length of its input only.
\<close>

definition table_IDFromString :: "(string \<times> ID) list \<Rightarrow> string \<Rightarrow> error + ID" where
  "table_IDFromString tbl s =
     (case map_of tbl s of
        None \<Rightarrow> Inl (Other ''malformed ID string'')
      | Some id' \<Rightarrow> Inr id')"

definition joined_DID_String :: "DID \<Rightarrow> string" where
  "joined_DID_String did = strings_Join ([DIDSchema, Method did] @ IDStrings did) '':''"

definition length_digest :: "string \<Rightarrow> byte list" where
  "length_digest s = replicate 32 (of_nat (length s))"

section \<open>Properties of the type table\<close>

lemmas chain_defs = Ethereum_def Polygon_def UnknownChain_def ReadOnly_def NoChain_def
lemmas network_defs = Main_def Mumbai_def Goerli_def UnknownNetwork_def NoNetwork_def
lemmas method_defs = DIDMethodIden3_def DIDMethodPolygonID_def
  DIDMethodPolygonIDOnChain_def DIDMethodOther_def
lemmas method_p0_defs = DIDMethodIden3_p0_def DIDMethodPolygonID_p0_def
lemmas table_defs = networks_of_def DIDMethodNetwork_def DIDMethodNetwork_entries_def
lemmas table_p0_defs = networks_of_p0_def DIDMethodNetwork_p0_def
  DIDMethodNetwork_entries_p0_def

lemma networks_of_known:
  "networks_of DIDMethodIden3 =
     [(\<lparr>Blockchain = ''readonly'', NetworkID = ''''\<rparr>, 0x00),
      (\<lparr>Blockchain = ''polygon'', NetworkID = ''main''\<rparr>, 0x11),
      (\<lparr>Blockchain = ''polygon'', NetworkID = ''mumbai''\<rparr>, 0x12),
      (\<lparr>Blockchain = ''eth'', NetworkID = ''main''\<rparr>, 0x21),
      (\<lparr>Blockchain = ''eth'', NetworkID = ''goerli''\<rparr>, 0x22)]"
  "networks_of DIDMethodPolygonID = networks_of DIDMethodIden3"
  "DIDMethodNetwork DIDMethodIden3 = Some (networks_of DIDMethodIden3)"
  "DIDMethodNetwork DIDMethodPolygonID = Some (networks_of DIDMethodIden3)"
  by (simp_all add: table_defs method_defs chain_defs network_defs)

lemma networks_of_other:
  "networks_of DIDMethodOther = [(\<lparr>Blockchain = ''unknown'', NetworkID = ''unknown''\<rparr>, 0xFF)]"
  "DIDMethodNetwork DIDMethodOther = Some (networks_of DIDMethodOther)"
  by (simp_all add: table_defs method_defs chain_defs network_defs)

text \<open>
  Go visits the entries of a map in an order it does not fix. The loops over the type
  table return at the first entry whose value is the byte looked for; no two entries of a
  method share a byte, so the order does not change what they return.
\<close>

lemma range_find_Some_iff:
  "distinct (map snd xs) \<Longrightarrow> range_find xs b = Some k \<longleftrightarrow> (k, b) \<in> set xs"
  by (induction xs) (auto simp: rev_image_eqI split: if_splits)

lemma range_find_None_iff: "range_find xs b = None \<longleftrightarrow> b \<notin> snd ` set xs"
  by (induction xs) (auto split: if_splits)

lemma range_find_order:
  assumes "distinct (map snd es)" and "distinct (map snd es')" and "set es = set es'"
  shows "range_find es b = range_find es' b"
proof (cases "range_find es b")
  case None
  then have "b \<notin> snd ` set es'"
    using assms(3) by (simp add: range_find_None_iff)
  then have "range_find es' b = None"
    by (simp add: range_find_None_iff)
  with None show ?thesis by simp
next
  case (Some k)
  then have "(k, b) \<in> set es'"
    using assms(1,3) by (simp add: range_find_Some_iff)
  then have "range_find es' b = Some k"
    using assms(2) by (simp add: range_find_Some_iff)
  with Some show ?thesis by simp
qed

lemma type_table_bytes_distinct:
  "distinct (map snd (networks_of DIDMethodIden3))"
  "distinct (map snd (networks_of DIDMethodPolygonID))"
  "distinct (map snd (networks_of DIDMethodOther))"
  "distinct (map snd (networks_of_p0 DIDMethodIden3_p0))"
  "distinct (map snd (networks_of_p0 DIDMethodPolygonID_p0))"
  "distinct (map snd DIDMethodByte_p0)"
  by (simp_all add: networks_of_known networks_of_other table_p0_defs method_p0_defs
      DIDMethodByte_p0_def)

text \<open>
  Claim C6: \<open>BuildDIDType(DIDMethodIden3, Polygon, Main)\<close> returns the byte pair
  \<open>{0x01, 0x11}\<close> and no error. Both generations of the function do.
\<close>

theorem BuildDIDType_Iden3_Polygon_Main:
  "BuildDIDType DIDMethodIden3 Polygon Main = Inr (0x01, 0x11) \<and>
   BuildDIDType_p0 DIDMethodIden3_p0 Polygon Main = Inr (0x01, 0x11)"
proof
  show "BuildDIDType DIDMethodIden3 Polygon Main = Inr (0x01, 0x11)"
    by (simp add: BuildDIDType_def knownMethods_def table_defs lookup_chain_def
        method_defs chain_defs network_defs)
  show "BuildDIDType_p0 DIDMethodIden3_p0 Polygon Main = Inr (0x01, 0x11)"
    by (simp add: BuildDIDType_p0_def DIDMethodByte_p0_def table_p0_defs lookup_chain_def
        method_p0_defs chain_defs network_defs)
qed



text \<open>
  Claim C3: for every entry of the table of a known method, a blockchain and a network
  with their byte, \<open>BuildDIDType\<close> returns the method byte with that byte, and decoding
  the second byte with \<open>FindBlockchainForDIDMethodByValue\<close> and
  \<open>FindNetworkIDForDIDMethodByValue\<close> returns the blockchain and the network.
\<close>

theorem type_table_round_trip:
  assumes "method \<in> set knownMethods"
    and "(\<lparr>Blockchain = blockchain, NetworkID = network\<rparr>, sb) \<in> set (networks_of method)"
  shows "BuildDIDType method blockchain network = Inr (method, sb) \<and>
         FindBlockchainForDIDMethodByValue method sb = Inr blockchain \<and>
         FindNetworkIDForDIDMethodByValue method sb = Inr network"
proof -
  from assms(1) have m: "method = DIDMethodIden3 \<or> method = DIDMethodPolygonID"
    by (simp add: knownMethods_def)
  then have tbl: "networks_of method = networks_of DIDMethodIden3"
    and some: "DIDMethodNetwork method = Some (networks_of DIDMethodIden3)"
    by (auto simp: networks_of_known)
  from assms(2) have cases:
    "(blockchain, network, sb) \<in> {(''readonly'', '''', 0x00), (''polygon'', ''main'', 0x11),
       (''polygon'', ''mumbai'', 0x12), (''eth'', ''main'', 0x21), (''eth'', ''goerli'', 0x22)}"
    unfolding tbl networks_of_known(1) by auto
  have build: "BuildDIDType method blockchain network = Inr (method, sb)"
    using cases assms(1)
    by (auto simp: BuildDIDType_def tbl networks_of_known(1) lookup_chain_def chain_defs)
  have chain: "FindBlockchainForDIDMethodByValue method sb = Inr blockchain"
    using cases by (auto simp: FindBlockchainForDIDMethodByValue_def some networks_of_known(1))
  have net: "FindNetworkIDForDIDMethodByValue method sb = Inr network"
    using cases by (auto simp: FindNetworkIDForDIDMethodByValue_def some networks_of_known(1))
  from build chain net show ?thesis by simp
qed

theorem type_table_round_trip_witness:
  "DIDMethodPolygonID \<in> set knownMethods \<and>
   (\<lparr>Blockchain = Ethereum, NetworkID = Goerli\<rparr>, 0x22) \<in> set (networks_of DIDMethodPolygonID) \<and>
   BuildDIDType DIDMethodPolygonID Ethereum Goerli = Inr (DIDMethodPolygonID, 0x22) \<and>
   FindBlockchainForDIDMethodByValue DIDMethodPolygonID 0x22 = Inr Ethereum \<and>
   FindNetworkIDForDIDMethodByValue DIDMethodPolygonID 0x22 = Inr Goerli"
proof -
  have k: "DIDMethodPolygonID \<in> set knownMethods"
    by (simp add: knownMethods_def)
  have t: "(\<lparr>Blockchain = Ethereum, NetworkID = Goerli\<rparr>, 0x22) \<in> set (networks_of DIDMethodPolygonID)"
    by (simp add: table_defs method_defs chain_defs network_defs)
  from type_table_round_trip [OF k t] k t show ?thesis by simp
qed

section \<open>Properties of the proof-of-work check\<close>

lemma byte_bits_zero:
  "byte_bits 0 = [False, False, False, False, False, False, False, False]"
  by (simp add: byte_bits_def)

lemma byte_bits_nonzero:
  assumes "b \<noteq> 0"
  shows "\<exists>x \<in> set (byte_bits b). x"
proof -
  from assms obtain n where n: "bit b n"
    by (auto simp: bit_eq_iff)
  then have "n < 8"
    using bit_imp_le_length [of b n] by simp
  then have "n \<in> set [7, 6, 5, 4, 3, 2, 1, 0]"
    unfolding set_simps list.set insert_iff empty_iff by arith
  then have "bit b n \<in> set (byte_bits b)"
    unfolding byte_bits_def set_map by (rule imageI)
  with n show ?thesis by blast
qed

lemma LeadingZeroBits_Cons_zero: "LeadingZeroBits (0 # h) = 8 + LeadingZeroBits h"
  by (simp add: LeadingZeroBits_def byte_bits_zero)

lemma LeadingZeroBits_Cons_nonzero:
  assumes "b \<noteq> 0"
  shows "LeadingZeroBits (b # h) < 8"
proof -
  from byte_bits_nonzero [OF assms] obtain x where x: "x \<in> set (byte_bits b)" "\<not> Not x"
    by auto
  then have eq: "takeWhile Not (byte_bits b @ concat (map byte_bits h)) = takeWhile Not (byte_bits b)"
    by (simp add: takeWhile_append1)
  have "takeWhile Not (byte_bits b) \<noteq> byte_bits b"
    using x by (auto simp: takeWhile_eq_all_conv)
  moreover have "length (takeWhile Not (byte_bits b)) \<le> length (byte_bits b)"
    by (rule length_takeWhile_le)
  moreover have "length (byte_bits b) = 8"
    by (simp add: byte_bits_def)
  ultimately have "length (takeWhile Not (byte_bits b)) < 8"
    by (metis takeWhile_eq_take take_all le_neq_implies_less)
  with eq show ?thesis
    by (simp add: LeadingZeroBits_def)
qed

text \<open>The first \<open>n\<close> bytes are zero exactly when the first \<open>8 * n\<close> bits are.\<close>

lemma leading_zero_bytes_iff:
  "n \<le> length h \<Longrightarrow> take n h = zeros n \<longleftrightarrow> 8 * n \<le> LeadingZeroBits h"
proof (induction h arbitrary: n)
  case Nil
  then show ?case by (simp add: zeros_def)
next
  case (Cons b h)
  show ?case
  proof (cases n)
    case 0
    then show ?thesis by (simp add: zeros_def)
  next
    case (Suc m)
    with Cons.prems have m: "m \<le> length h" by simp
    show ?thesis
    proof (cases "b = 0")
      case True
      with Cons.IH [OF m] Suc show ?thesis
        by (simp add: zeros_def LeadingZeroBits_Cons_zero)
    next
      case False
      with LeadingZeroBits_Cons_nonzero [OF False, of h] Suc show ?thesis
        by (simp add: zeros_def)
    qed
  qed
qed

lemma CheckPoW_in_range:
  assumes "length hash = 32" and "0 \<le> difficulty" and "difficulty \<le> 32"
  shows "CheckPoW hash difficulty = Inr (take (nat difficulty) hash = zeros (nat difficulty))"
proof -
  have h: "slice_upto hash difficulty = Inr (take (nat difficulty) hash)"
    using assms by (simp add: slice_upto_def)
  have e: "slice_upto (zeros 32) difficulty = Inr (zeros (nat difficulty))"
    using assms by (simp add: slice_upto_def zeros_def min_def)
  show ?thesis
    by (simp add: CheckPoW_def h e)
qed

text \<open>
  Claim C1, as stated, says that \<open>CheckPoW(hash, difficulty)\<close> is
  \<open>LeadingZeroBits(hash) \<ge> difficulty\<close>. The code compares the first \<open>difficulty\<close>
  bytes, not bits: a hash that starts with the byte \<open>0x01\<close> has seven leading zero bits
  and fails the check at difficulty 1.
\<close>

theorem CheckPoW_bits_counterexample:
  "CheckPoW (0x01 # zeros 31) 1 = Inr False \<and>
   (1 :: int) \<le> int (LeadingZeroBits (0x01 # zeros 31))"
  by (simp add: CheckPoW_def slice_upto_def zeros_def LeadingZeroBits_def byte_bits_def)

text \<open>
  Claim C1, amended: for every 32-byte hash and every difficulty from 0 to 32,
  \<open>CheckPoW(hash, difficulty)\<close> returns true if and only if the leading \<open>difficulty\<close>
  bytes of the hash are zero, that is, it equals
  \<open>LeadingZeroBits(hash) \<ge> 8 * difficulty\<close>.
\<close>

theorem CheckPoW_leading_zero_bytes:
  assumes "length hash = 32" and "0 \<le> difficulty" and "difficulty \<le> 32"
  shows "CheckPoW hash difficulty = Inr (take (nat difficulty) hash = zeros (nat difficulty)) \<and>
         CheckPoW hash difficulty = Inr (8 * difficulty \<le> int (LeadingZeroBits hash))"
proof -
  let ?n = "nat difficulty"
  from assms have n: "?n \<le> length hash" by simp
  have bytes: "CheckPoW hash difficulty = Inr (take ?n hash = zeros ?n)"
    by (rule CheckPoW_in_range [OF assms])
  have "(take ?n hash = zeros ?n) = (8 * ?n \<le> LeadingZeroBits hash)"
    by (rule leading_zero_bytes_iff [OF n])
  also have "\<dots> = (8 * difficulty \<le> int (LeadingZeroBits hash))"
    using assms(2) by linarith
  finally have "(take ?n hash = zeros ?n) = (8 * difficulty \<le> int (LeadingZeroBits hash))" .
  with bytes show ?thesis by simp
qed

theorem CheckPoW_leading_zero_bytes_witness:
  "length (0 # 0 # 0x80 # zeros 29) = 32 \<and> (0 :: int) \<le> 2 \<and> (2 :: int) \<le> 32 \<and>
   LeadingZeroBits (0 # 0 # 0x80 # zeros 29) = 16 \<and>
   CheckPoW (0 # 0 # 0x80 # zeros 29) 2 = Inr True"
proof -
  have len: "length (0 # 0 # 0x80 # zeros 29) = 32"
    by (simp add: zeros_def)
  have lzb: "LeadingZeroBits (0 # 0 # 0x80 # zeros 29) = 16"
    by (simp add: LeadingZeroBits_def byte_bits_def)
  from CheckPoW_leading_zero_bytes [OF len, of 2, THEN conjunct2] lzb
  have "CheckPoW (0 # 0 # 0x80 # zeros 29) 2 = Inr True"
    by simp
  with lzb len show ?thesis
    by simp
qed

text \<open>
  Claim C9: on a 32-byte hash, \<open>CheckPoW\<close> panics (the slice of the hash by the
  difficulty is out of bounds) exactly when the difficulty is below 0 or above 32, and
  returns a boolean exactly when the difficulty is between 0 and 32.
\<close>

theorem CheckPoW_total_iff:
  assumes "length hash = 32"
  shows "(CheckPoW hash difficulty = Inl SliceBoundsOutOfRange \<longleftrightarrow>
            difficulty < 0 \<or> 32 < difficulty) \<and>
         ((\<exists>b. CheckPoW hash difficulty = Inr b) \<longleftrightarrow> 0 \<le> difficulty \<and> difficulty \<le> 32)"
proof (cases "0 \<le> difficulty \<and> difficulty \<le> 32")
  case True
  with CheckPoW_in_range [OF assms, of difficulty] show ?thesis
    by auto
next
  case False
  then have "slice_upto hash difficulty = Inl SliceBoundsOutOfRange"
    using assms by (auto simp: slice_upto_def)
  then have "CheckPoW hash difficulty = Inl SliceBoundsOutOfRange"
    by (simp add: CheckPoW_def)
  with False show ?thesis by auto
qed

theorem CheckPoW_total_iff_witness:
  "length (zeros 32) = 32 \<and>
   CheckPoW (zeros 32) 33 = Inl SliceBoundsOutOfRange \<and>
   CheckPoW (zeros 32) (- 1) = Inl SliceBoundsOutOfRange \<and>
   (\<exists>b. CheckPoW (zeros 32) 32 = Inr b) \<and>
   (\<exists>b. CheckPoW (zeros 32) 0 = Inr b)"
proof -
  have len: "length (zeros 32) = 32"
    by (simp add: zeros_def)
  from CheckPoW_total_iff [OF len, of 33] CheckPoW_total_iff [OF len, of "- 1"]
    CheckPoW_total_iff [OF len, of 32] CheckPoW_total_iff [OF len, of 0] len
  show ?thesis by simp
qed

section \<open>Properties of identifiers and DIDs\<close>

lemma GenesisFromEthAddress_eq:
  "length addr = 20 \<Longrightarrow> GenesisFromEthAddress addr = zeros 7 @ addr"
  by (simp add: GenesisFromEthAddress_def copy_into_def zeros_def genesisLn_def)

lemma reserved_bytes_zero_iff:
  assumes "length id' = 31"
  shows "take 7 (drop 2 id') = zeros 7 \<longleftrightarrow> (\<forall>i. 2 \<le> i \<and> i < 9 \<longrightarrow> id' ! i = 0)"
proof -
  have "take 7 (drop 2 id') = zeros 7 \<longleftrightarrow> (\<forall>j<7. id' ! (2 + j) = 0)"
    using assms by (simp add: list_eq_iff_nth_eq zeros_def)
  also have "\<dots> \<longleftrightarrow> (\<forall>i. 2 \<le> i \<and> i < 9 \<longrightarrow> id' ! i = 0)"
  proof (intro iffI allI impI)
    fix i :: nat assume h: "\<forall>j<7. id' ! (2 + j) = 0" and i: "2 \<le> i \<and> i < 9"
    then have "i - 2 < 7" and e: "2 + (i - 2) = i" by arith+
    with h have "id' ! (2 + (i - 2)) = 0" by blast
    then show "id' ! i = 0" unfolding e .
  next
    fix j :: nat assume h: "\<forall>i. 2 \<le> i \<and> i < 9 \<longrightarrow> id' ! i = 0" and j: "j < 7"
    then show "id' ! (2 + j) = 0" by simp
  qed
  finally show ?thesis .
qed

text \<open>
  Claim C5: for every 20-byte address and every type, \<open>EthAddressFromID\<close> of the ID
  built by \<open>NewID\<close> from \<open>GenesisFromEthAddress\<close> of the address returns the address
  and no error; and on every ID, \<open>EthAddressFromID\<close> returns an error exactly when one
  of the seven reserved bytes, bytes 2 to 8 of the ID, is not zero.
\<close>

theorem EthAddress_round_trip:
  assumes "length addr = 20" and "length id' = 31"
  shows "EthAddressFromID (NewID cs typ (GenesisFromEthAddress addr)) = Inr addr \<and>
         ((\<exists>e. EthAddressFromID id' = Inl e) \<longleftrightarrow> (\<exists>i. 2 \<le> i \<and> i < 9 \<and> id' ! i \<noteq> 0))"
proof
  show "EthAddressFromID (NewID cs typ (GenesisFromEthAddress addr)) = Inr addr"
    using assms(1)
    by (simp add: EthAddressFromID_def NewID_def GenesisFromEthAddress_eq copy_into_def zeros_def)
  have "(\<exists>e. EthAddressFromID id' = Inl e) \<longleftrightarrow> take 7 (drop 2 id') \<noteq> zeros 7"
    by (auto simp: EthAddressFromID_def Let_def zeros_def)
  also have "\<dots> \<longleftrightarrow> (\<exists>i. 2 \<le> i \<and> i < 9 \<and> id' ! i \<noteq> 0)"
    using reserved_bytes_zero_iff [OF assms(2)] by blast
  finally show "(\<exists>e. EthAddressFromID id' = Inl e) \<longleftrightarrow> (\<exists>i. 2 \<le> i \<and> i < 9 \<and> id' ! i \<noteq> 0)" .
qed

theorem EthAddress_round_trip_witness:
  "length (map of_nat [1..<21] :: byte list) = 20 \<and>
   length (NewID sum_checksum (0x01, 0x11) (replicate 27 1)) = 31 \<and>
   EthAddressFromID (NewID sum_checksum (0x01, 0x11)
     (GenesisFromEthAddress (map of_nat [1..<21]))) = Inr (map of_nat [1..<21]) \<and>
   (\<exists>e. EthAddressFromID (NewID sum_checksum (0x01, 0x11) (replicate 27 1)) = Inl e)"
proof -
  have a: "length (map of_nat [1..<21] :: byte list) = 20"
    by simp
  have b: "length (NewID sum_checksum (0x01, 0x11) (replicate 27 1)) = 31"
    by (simp add: NewID_def)
  have c: "\<exists>i. 2 \<le> i \<and> i < 9 \<and> NewID sum_checksum (0x01, 0x11) (replicate 27 1) ! i \<noteq> 0"
    by (rule exI [of _ 2]) (simp add: NewID_def nth_append)
  from EthAddress_round_trip [OF a b, of sum_checksum "(0x01, 0x11)"] a b c
  show ?thesis by blast
qed

lemma unsupported_type_decodes:
  assumes "id' ! 0 = DIDMethodOther" and "id' ! 1 = 0xFF"
  shows "decodeDIDPartsFromID id' = Inr (DIDMethodOther, UnknownChain, UnknownNetwork)"
  using assms
  by (simp add: decodeDIDPartsFromID_def FindBlockchainForDIDMethodByValue_def
      FindNetworkIDForDIDMethodByValue_def networks_of_other chain_defs network_defs)

lemma CheckChecksum_NewID:
  "length genesis = 27 \<Longrightarrow> CheckChecksum cs (NewID cs typ genesis)"
  by (simp add: CheckChecksum_def NewID_def genesisLn_def)

lemma newIDFromUnsupportedDID_eq:
  assumes "length (sha256 (DID_String did)) = 32"
  shows "newIDFromUnsupportedDID cs sha256 DID_String did =
         NewID cs (DIDMethodOther, 0xFF) (drop 5 (sha256 (DID_String did)))"
  using assms
  by (simp add: newIDFromUnsupportedDID_def Let_def networks_of_other chain_defs network_defs
      copy_into_def zeros_def genesisLn_def)

lemma fallback_ID_shape:
  assumes "length (sha256 (DID_String did)) = 32"
  shows "length (newIDFromUnsupportedDID cs sha256 DID_String did) = 31"
    and "newIDFromUnsupportedDID cs sha256 DID_String did ! 0 = DIDMethodOther"
    and "newIDFromUnsupportedDID cs sha256 DID_String did ! 1 = 0xFF"
    and "take genesisLn (drop 2 (newIDFromUnsupportedDID cs sha256 DID_String did)) =
         drop 5 (sha256 (DID_String did))"
    and "CheckChecksum cs (newIDFromUnsupportedDID cs sha256 DID_String did)"
  using assms
  by (simp_all add: newIDFromUnsupportedDID_eq CheckChecksum_NewID)
     (simp_all add: NewID_def genesisLn_def)

text \<open>
  Claim C8: \<open>ParseDIDFromID\<close> on an ID whose type bytes are the sentinel of the
  unknown method, \<open>0xFF\<close> and \<open>0xFF\<close>, never returns a DID; for an ID with a valid
  checksum the error is \<open>ErrMethodUnknown\<close>, and so it is for every ID that
  \<open>newIDFromUnsupportedDID\<close> produces.
\<close>

theorem ParseDIDFromID_unsupported:
  assumes "id' ! 0 = DIDMethodOther" and "id' ! 1 = 0xFF"
    and "length (sha256 (DID_String did)) = 32"
  shows "(\<forall>d. ParseDIDFromID cs ID_String Parse id' \<noteq> Inr d) \<and>
         (CheckChecksum cs id' \<longrightarrow>
            ParseDIDFromID cs ID_String Parse id' =
              Inl (Wrapped ErrMethodUnknown ''unsupported DID'')) \<and>
         ParseDIDFromID cs ID_String Parse (newIDFromUnsupportedDID cs sha256 DID_String did) =
           Inl (Wrapped ErrMethodUnknown ''unsupported DID'')"
proof -
  have typed: "ParseDIDFromID cs ID_String Parse x =
      (if CheckChecksum cs x then Inl (Wrapped ErrMethodUnknown ''unsupported DID'')
       else Inl (Wrapped ErrUnsupportedID ''invalid checksum''))"
    if "x ! 0 = DIDMethodOther" and "x ! 1 = 0xFF" for x
    using unsupported_type_decodes [OF that]
    by (simp add: ParseDIDFromID_def isUnsupportedDID_def)
  have 1: "\<forall>d. ParseDIDFromID cs ID_String Parse id' \<noteq> Inr d"
    by (simp add: typed [OF assms(1,2)])
  have 2: "CheckChecksum cs id' \<longrightarrow>
      ParseDIDFromID cs ID_String Parse id' = Inl (Wrapped ErrMethodUnknown ''unsupported DID'')"
    by (simp add: typed [OF assms(1,2)])
  have 3: "ParseDIDFromID cs ID_String Parse (newIDFromUnsupportedDID cs sha256 DID_String did) =
      Inl (Wrapped ErrMethodUnknown ''unsupported DID'')"
    using fallback_ID_shape(2,3,5) [of sha256 DID_String did cs, OF assms(3)]
    by (simp add: typed)
  from 1 2 3 show ?thesis by blast
qed

theorem ParseDIDFromID_unsupported_witness:
  "NewID sum_checksum (0xFF, 0xFF) (zeros 27) ! 0 = DIDMethodOther \<and>
   NewID sum_checksum (0xFF, 0xFF) (zeros 27) ! 1 = 0xFF \<and>
   length (length_digest (joined_DID_String \<lparr>Method = ''example'', IDStrings = [''123'']\<rparr>)) = 32 \<and>
   CheckChecksum sum_checksum (NewID sum_checksum (0xFF, 0xFF) (zeros 27)) \<and>
   ParseDIDFromID sum_checksum (\<lambda>x. []) (\<lambda>s. Inl (Other s))
     (NewID sum_checksum (0xFF, 0xFF) (zeros 27)) =
     Inl (Wrapped ErrMethodUnknown ''unsupported DID'') \<and>
   ParseDIDFromID sum_checksum (\<lambda>x. []) (\<lambda>s. Inl (Other s))
     (newIDFromUnsupportedDID sum_checksum length_digest joined_DID_String
        \<lparr>Method = ''example'', IDStrings = [''123'']\<rparr>) =
     Inl (Wrapped ErrMethodUnknown ''unsupported DID'')"
proof -
  let ?id = "NewID sum_checksum (0xFF, 0xFF) (zeros 27)"
  let ?did = "\<lparr>Method = ''example'', IDStrings = [''123'']\<rparr>"
  have t0: "?id ! 0 = DIDMethodOther" and t1: "?id ! 1 = 0xFF"
    by (simp_all add: NewID_def DIDMethodOther_def)
  have len: "length (length_digest (joined_DID_String ?did)) = 32"
    by (simp add: length_digest_def)
  have valid: "CheckChecksum sum_checksum ?id"
    by (rule CheckChecksum_NewID) (simp add: zeros_def)
  from ParseDIDFromID_unsupported [of ?id length_digest joined_DID_String ?did sum_checksum
      "\<lambda>x. []" "\<lambda>s. Inl (Other s)", OF t0 t1 len] valid t0 t1 len
  show ?thesis by simp
qed

lemma idFromDID_unknown:
  assumes "Method did \<notin> DIDMethod_String ` set knownMethods"
  shows "idFromDID cs IDFromString did = Inl (Bare ErrMethodUnknown)"
proof -
  from assms have "\<not> list_ex (\<lambda>m. DIDMethod_String m = Method did) knownMethods"
    unfolding list_ex_iff by (metis image_eqI)
  then show ?thesis
    by (simp add: idFromDID_def)
qed

text \<open>
  Claim C4: for DIDs whose method is not the name of a known method, \<open>IDFromDID\<close>
  returns no error and an ID that depends on the DID string alone: two DIDs with the same
  string get the same ID. The ID has the type bytes \<open>0xFF\<close>, \<open>0xFF\<close>, and its
  genesis is the last 27 of the 32 bytes of the digest of the DID string.
\<close>

theorem IDFromDID_unknown_method:
  assumes "Method did \<notin> DIDMethod_String ` set knownMethods"
    and "Method did2 \<notin> DIDMethod_String ` set knownMethods"
    and "DID_String did2 = DID_String did"
    and "length (sha256 (DID_String did)) = 32"
  shows "IDFromDID cs IDFromString sha256 DID_String did =
           Inr (NewID cs (DIDMethodOther, 0xFF) (drop 5 (sha256 (DID_String did)))) \<and>
         IDFromDID cs IDFromString sha256 DID_String did2 =
           IDFromDID cs IDFromString sha256 DID_String did \<and>
         NewID cs (DIDMethodOther, 0xFF) (drop 5 (sha256 (DID_String did))) =
           [0xFF, 0xFF] @ drop 5 (sha256 (DID_String did)) @
           [fst (cs (0xFF, 0xFF) (drop 5 (sha256 (DID_String did)))),
            snd (cs (0xFF, 0xFF) (drop 5 (sha256 (DID_String did))))]"
proof -
  have fallback: "IDFromDID cs IDFromString sha256 DID_String d =
      Inr (newIDFromUnsupportedDID cs sha256 DID_String d)"
    if "Method d \<notin> DIDMethod_String ` set knownMethods" for d
    by (simp add: IDFromDID_def idFromDID_unknown [OF that])
  have same: "newIDFromUnsupportedDID cs sha256 DID_String did2 =
      newIDFromUnsupportedDID cs sha256 DID_String did"
    by (simp add: newIDFromUnsupportedDID_def assms(3))
  have 1: "IDFromDID cs IDFromString sha256 DID_String did =
      Inr (NewID cs (DIDMethodOther, 0xFF) (drop 5 (sha256 (DID_String did))))"
    by (simp add: fallback [OF assms(1)]
        newIDFromUnsupportedDID_eq [of sha256 DID_String did cs, OF assms(4)])
  have 2: "IDFromDID cs IDFromString sha256 DID_String did2 =
      IDFromDID cs IDFromString sha256 DID_String did"
    by (simp add: fallback [OF assms(1)] fallback [OF assms(2)] same)
  have 3: "NewID cs (DIDMethodOther, 0xFF) (drop 5 (sha256 (DID_String did))) =
           [0xFF, 0xFF] @ drop 5 (sha256 (DID_String did)) @
           [fst (cs (0xFF, 0xFF) (drop 5 (sha256 (DID_String did)))),
            snd (cs (0xFF, 0xFF) (drop 5 (sha256 (DID_String did))))]"
    by (simp add: NewID_def DIDMethodOther_def)
  from 1 2 3 show ?thesis by blast
qed

theorem IDFromDID_unknown_method_witness:
  "Method \<lparr>Method = ''example'', IDStrings = [''123'']\<rparr> \<notin> DIDMethod_String ` set knownMethods \<and>
   length (length_digest (joined_DID_String \<lparr>Method = ''example'', IDStrings = [''123'']\<rparr>)) = 32 \<and>
   IDFromDID sum_checksum (table_IDFromString []) length_digest joined_DID_String
     \<lparr>Method = ''example'', IDStrings = [''123'']\<rparr> =
     Inr ([0xFF, 0xFF] @ replicate 27 15 @ [0x93, 0x03])"
proof -
  let ?did = "\<lparr>Method = ''example'', IDStrings = [''123'']\<rparr>"
  have unknown: "Method ?did \<notin> DIDMethod_String ` set knownMethods"
    by (simp add: knownMethods_def DIDMethod_String_def method_defs)
  have str: "joined_DID_String ?did = ''did:example:123''"
    by (simp add: joined_DID_String_def DIDSchema_def)
  have len: "length (length_digest (joined_DID_String ?did)) = 32"
    by (simp add: length_digest_def)
  have gen: "drop 5 (length_digest (joined_DID_String ?did)) = replicate 27 15"
    by (simp add: str length_digest_def)
  have sum: "sum_list (replicate 27 (15 :: nat)) = 405"
    by (simp add: sum_list_replicate)
  have cs: "sum_checksum (0xFF, 0xFF) (replicate 27 15) = (0x93, 0x03)"
    by (simp add: sum_checksum_def sum)
  from IDFromDID_unknown_method [of ?did ?did joined_DID_String length_digest sum_checksum
      "table_IDFromString []", OF unknown unknown refl len] unknown len
  show ?thesis by (simp add: gen cs)
qed

lemma known_method_found:
  "list_ex (\<lambda>m. DIDMethod_String m = x) knownMethods \<longleftrightarrow> x \<in> DIDMethod_String ` set knownMethods"
  unfolding list_ex_iff by (metis image_eqI imageE)

text \<open>A concrete identifier for the evaluations below.\<close>

lemma example_ID_valid: "CheckChecksum sum_checksum (NewID sum_checksum (0x01, 0x11) (zeros 27))"
  by (rule CheckChecksum_NewID) (simp add: zeros_def)

lemma decode_iden3_polygon_main:
  "decodeDIDPartsFromID (NewID cs (0x01, 0x11) g) = Inr (DIDMethodIden3, ''polygon'', ''main'')"
  "decodeDIDPartsFromID_p0 (NewID cs (0x01, 0x11) g) = Inr (''iden3'', ''polygon'', ''main'')"
  by (simp_all add: NewID_def decodeDIDPartsFromID_def FindBlockchainForDIDMethodByValue_def
      FindNetworkIDForDIDMethodByValue_def table_defs method_defs
      decodeDIDPartsFromID_p0_def MethodByte_def BlockchainNetworkByte_def
      FindDIDMethodByValue_p0_def DIDMethodByte_p0_def FindBlockchainForDIDMethodByValue_p0_def
      FindNetworkIDForDIDMethodByValue_p0_def table_p0_defs method_p0_defs chain_defs network_defs)

text \<open>
  Claim C2, as stated, has \<open>idFromDID\<close> return the mismatch error whenever the method
  of the DID differs from the method decoded from the ID. When the method of the DID is
  not the name of a known method, \<open>idFromDID\<close> returns \<open>ErrMethodUnknown\<close> before it
  looks at the ID: here the DID names the method \<open>example\<close> and ends in a valid ID of
  the method \<open>iden3\<close>.
\<close>

theorem unknown_method_counterexample:
  "CheckChecksum sum_checksum (NewID sum_checksum (0x01, 0x11) (zeros 27)) \<and>
   decodeDIDPartsFromID (NewID sum_checksum (0x01, 0x11) (zeros 27)) =
     Inr (DIDMethodIden3, ''polygon'', ''main'') \<and>
   DIDMethod_String DIDMethodIden3 \<noteq> ''example'' \<and>
   idFromDID sum_checksum
     (table_IDFromString [(''ID1'', NewID sum_checksum (0x01, 0x11) (zeros 27))])
     \<lparr>Method = ''example'', IDStrings = [''polygon'', ''main'', ''ID1'']\<rparr> =
     Inl (Bare ErrMethodUnknown)"
proof -
  have "DIDMethod_String DIDMethodIden3 \<noteq> ''example''"
    by (simp add: DIDMethod_String_def)
  moreover have "idFromDID sum_checksum
     (table_IDFromString [(''ID1'', NewID sum_checksum (0x01, 0x11) (zeros 27))])
     \<lparr>Method = ''example'', IDStrings = [''polygon'', ''main'', ''ID1'']\<rparr> =
     Inl (Bare ErrMethodUnknown)"
    by (simp add: idFromDID_def knownMethods_def DIDMethod_String_def method_defs)
  ultimately show ?thesis
    using example_ID_valid decode_iden3_polygon_main(1) by simp
qed

text \<open>
  Claim C2, amended: for every DID with one to three ID strings whose last ID string
  decodes to an ID with a valid checksum and a type that decodes, if the method differs
  from the one decoded from the ID, or the blockchain segment (when present) or the
  network segment (when present) differs, then \<open>Decompose\<close> returns the
  \<open>ErrInvalidDID\<close> error of the first mismatch, in the order method, blockchain,
  network; and \<open>idFromDID\<close> returns the \<open>ErrIncorrectDID\<close> error of the first
  mismatch when the method of the DID is the name of a known method, and
  \<open>ErrMethodUnknown\<close> when it is not. Neither returns an ID.
\<close>

theorem mismatch_is_an_error:
  assumes segments: "1 \<le> length (IDStrings did)" "length (IDStrings did) \<le> 3"
    and parsed: "IDFromString (IDStrings did ! (length (IDStrings did) - 1)) = Inr id'"
    and valid: "CheckChecksum cs id'"
  shows "(decodeDIDPartsFromID_p0 id' = Inr (m0, b0, n0) \<and>
          (m0 \<noteq> Method did \<or>
           (1 < length (IDStrings did) \<and> b0 \<noteq> IDStrings did ! 0) \<or>
           (2 < length (IDStrings did) \<and> n0 \<noteq> IDStrings did ! 1)) \<longrightarrow>
          Decompose_p0 cs IDFromString did =
            Inl (if m0 \<noteq> Method did then method_mismatch m0 (Method did)
                 else if 1 < length (IDStrings did) \<and> b0 \<noteq> IDStrings did ! 0
                 then blockchain_mismatch b0 (IDStrings did ! 0)
                 else network_mismatch n0 (IDStrings did ! 1))) \<and>
         (decodeDIDPartsFromID id' = Inr (m, b, n) \<and>
          (DIDMethod_String m \<noteq> Method did \<or>
           (1 < length (IDStrings did) \<and> b \<noteq> IDStrings did ! 0) \<or>
           (2 < length (IDStrings did) \<and> n \<noteq> IDStrings did ! 1)) \<longrightarrow>
          idFromDID cs IDFromString did =
            Inl (if Method did \<notin> DIDMethod_String ` set knownMethods
                 then Bare ErrMethodUnknown
                 else if DIDMethod_String m \<noteq> Method did
                 then Wrapped ErrIncorrectDID ''methods in ID and DID are different''
                 else if 1 < length (IDStrings did) \<and> b \<noteq> IDStrings did ! 0
                 then Wrapped ErrIncorrectDID ''blockchains in ID and DID are different''
                 else Wrapped ErrIncorrectDID ''networkIDs in ID and DID are different''))"
proof -
  have decoded: "decodeIDFromDID_p0 cs IDFromString did = Inr id'"
    using segments parsed valid by (auto simp: decodeIDFromDID_p0_def)
  have old: "Decompose_p0 cs IDFromString did =
      Inl (if m0 \<noteq> Method did then method_mismatch m0 (Method did)
           else if 1 < length (IDStrings did) \<and> b0 \<noteq> IDStrings did ! 0
           then blockchain_mismatch b0 (IDStrings did ! 0)
           else network_mismatch n0 (IDStrings did ! 1))"
    if "decodeDIDPartsFromID_p0 id' = Inr (m0, b0, n0)"
      and "m0 \<noteq> Method did \<or>
           (1 < length (IDStrings did) \<and> b0 \<noteq> IDStrings did ! 0) \<or>
           (2 < length (IDStrings did) \<and> n0 \<noteq> IDStrings did ! 1)"
    using that by (auto simp: Decompose_p0_def decoded)
  have new: "idFromDID cs IDFromString did =
      Inl (if Method did \<notin> DIDMethod_String ` set knownMethods
           then Bare ErrMethodUnknown
           else if DIDMethod_String m \<noteq> Method did
           then Wrapped ErrIncorrectDID ''methods in ID and DID are different''
           else if 1 < length (IDStrings did) \<and> b \<noteq> IDStrings did ! 0
           then Wrapped ErrIncorrectDID ''blockchains in ID and DID are different''
           else Wrapped ErrIncorrectDID ''networkIDs in ID and DID are different'')"
    if "decodeDIDPartsFromID id' = Inr (m, b, n)"
      and "DIDMethod_String m \<noteq> Method did \<or>
           (1 < length (IDStrings did) \<and> b \<noteq> IDStrings did ! 0) \<or>
           (2 < length (IDStrings did) \<and> n \<noteq> IDStrings did ! 1)"
  proof (cases "Method did \<in> DIDMethod_String ` set knownMethods")
    case False
    then show ?thesis
      by (simp add: idFromDID_unknown)
  next
    case True
    then have found: "list_ex (\<lambda>m. DIDMethod_String m = Method did) knownMethods"
      by (simp add: known_method_found)
    have count: "\<not> (length (IDStrings did) > 3 \<or> length (IDStrings did) < 1)"
      using segments by auto
    show ?thesis
      unfolding idFromDID_def using that True
      by (simp only: found count parsed valid that(1) not_True_eq_False not_False_eq_True
          if_True if_False sum.case prod.case) auto
  qed
  from old new show ?thesis by blast
qed

theorem mismatch_is_an_error_witness:
  "1 \<le> length [''eth'', ''main'', ''ID1''] \<and> length [''eth'', ''main'', ''ID1''] \<le> 3 \<and>
   CheckChecksum sum_checksum (NewID sum_checksum (0x01, 0x11) (zeros 27)) \<and>
   decodeDIDPartsFromID_p0 (NewID sum_checksum (0x01, 0x11) (zeros 27)) =
     Inr (''iden3'', ''polygon'', ''main'') \<and>
   decodeDIDPartsFromID (NewID sum_checksum (0x01, 0x11) (zeros 27)) =
     Inr (DIDMethodIden3, ''polygon'', ''main'') \<and>
   Decompose_p0 sum_checksum
     (table_IDFromString [(''ID1'', NewID sum_checksum (0x01, 0x11) (zeros 27))])
     \<lparr>Method = ''iden3'', IDStrings = [''eth'', ''main'', ''ID1'']\<rparr> =
     Inl (Wrapped ErrInvalidDID ''blockchain mismatch: found polygon in ID but eth in DID'') \<and>
   idFromDID sum_checksum
     (table_IDFromString [(''ID1'', NewID sum_checksum (0x01, 0x11) (zeros 27))])
     \<lparr>Method = ''iden3'', IDStrings = [''eth'', ''main'', ''ID1'']\<rparr> =
     Inl (Wrapped ErrIncorrectDID ''blockchains in ID and DID are different'')"
proof -
  let ?id = "NewID sum_checksum (0x01, 0x11) (zeros 27)"
  let ?did = "\<lparr>Method = ''iden3'', IDStrings = [''eth'', ''main'', ''ID1'']\<rparr>"
  let ?parse = "table_IDFromString [(''ID1'', ?id)]"
  have s1: "1 \<le> length (IDStrings ?did)" and s2: "length (IDStrings ?did) \<le> 3"
    by simp_all
  have p: "?parse (IDStrings ?did ! (length (IDStrings ?did) - 1)) = Inr ?id"
    by (simp add: table_IDFromString_def)
  have known: "Method ?did \<in> DIDMethod_String ` set knownMethods"
    by (simp add: knownMethods_def DIDMethod_String_def)
  have name: "DIDMethod_String DIDMethodIden3 = Method ?did"
    by (simp add: DIDMethod_String_def)
  note inst = mismatch_is_an_error [of ?did ?parse ?id sum_checksum
      "''iden3''" "''polygon''" "''main''" DIDMethodIden3 "''polygon''" "''main''",
      OF s1 s2 p example_ID_valid]
  from inst [THEN conjunct1] decode_iden3_polygon_main(2) [of sum_checksum "zeros 27"]
  have old: "Decompose_p0 sum_checksum ?parse ?did =
      Inl (Wrapped ErrInvalidDID ''blockchain mismatch: found polygon in ID but eth in DID'')"
    by (simp add: blockchain_mismatch_def)
  from inst [THEN conjunct2] decode_iden3_polygon_main(1) [of sum_checksum "zeros 27"] known name
  have new: "idFromDID sum_checksum ?parse ?did =
      Inl (Wrapped ErrIncorrectDID ''blockchains in ID and DID are different'')"
    by simp
  from old new example_ID_valid decode_iden3_polygon_main [of sum_checksum "zeros 27"]
  show ?thesis by simp
qed

section \<open>Properties of the timestamp check\<close>

text \<open>Rounding to \<open>float64\<close> is monotone and leaves the integers up to \<open>2 ^ 53\<close> as they are.\<close>

lemma round_half_even_bounds: "\<lfloor>z\<rfloor> \<le> round_half_even z" "round_half_even z \<le> \<lfloor>z\<rfloor> + 1"
  by (simp_all add: round_half_even_def Let_def)

lemma round_half_even_of_int: "round_half_even (of_int k) = k"
  by (simp add: round_half_even_def)

lemma round_half_even_mono:
  assumes "z \<le> w"
  shows "round_half_even z \<le> round_half_even w"
proof (cases "\<lfloor>z\<rfloor> = \<lfloor>w\<rfloor>")
  case True
  with assms have "z - of_int \<lfloor>z\<rfloor> \<le> w - of_int \<lfloor>w\<rfloor>"
    by simp
  then show ?thesis
    unfolding round_half_even_def Let_def True [symmetric]
    by (simp add: True)
next
  case False
  with floor_mono [OF assms] have "\<lfloor>z\<rfloor> + 1 \<le> \<lfloor>w\<rfloor>"
    by simp
  with round_half_even_bounds(2) [of z] round_half_even_bounds(1) [of w] show ?thesis
    by linarith
qed


text \<open>A positive real lies in the binade of its exponent.\<close>

lemma binade:
  assumes "0 < x"
  shows "2 powr of_int \<lfloor>log 2 x\<rfloor> \<le> x" and "x < 2 powr (of_int \<lfloor>log 2 x\<rfloor> + 1)"
proof -
  have "2 powr of_int \<lfloor>log 2 x\<rfloor> \<le> 2 powr log 2 x"
    by (intro powr_mono) simp_all
  then show "2 powr of_int \<lfloor>log 2 x\<rfloor> \<le> x"
    using assms by simp
  have "2 powr log 2 x < 2 powr (of_int \<lfloor>log 2 x\<rfloor> + 1)"
    by (intro powr_less_mono) simp_all
  then show "x < 2 powr (of_int \<lfloor>log 2 x\<rfloor> + 1)"
    using assms by simp
qed

text \<open>The rounding of a positive real stays in the closed binade.\<close>

lemma float64_round_pos:
  assumes "0 < x"
  defines "e \<equiv> \<lfloor>log 2 x\<rfloor>"
  shows "float64_round x = of_int (round_half_even (x / 2 powr (of_int e - 52))) * 2 powr (of_int e - 52)"
    and "2 powr of_int e \<le> float64_round x"
    and "float64_round x \<le> 2 powr (of_int e + 1)"
proof -
  let ?u = "2 powr (of_int e - 52) :: real"
  have u: "0 < ?u" by simp
  show eq: "float64_round x = of_int (round_half_even (x / ?u)) * ?u"
    using assms(1) by (simp add: float64_round_def e_def Let_def)
  have lo: "of_int (2 ^ 52) * ?u = 2 powr of_int e"
    and hi: "of_int (2 ^ 53) * ?u = 2 powr (of_int e + 1)"
    by (simp_all add: powr_diff powr_add)
  have "of_int (2 ^ 52) * ?u \<le> x"
    using binade(1) [OF assms(1)] unfolding e_def [symmetric] lo .
  then have "of_int (2 ^ 52) \<le> x / ?u"
    using u by (simp only: pos_le_divide_eq)
  from round_half_even_mono [OF this]
  have "(2 ^ 52 :: int) \<le> round_half_even (x / ?u)"
    by (simp only: round_half_even_of_int)
  then have "(of_int (2 ^ 52) :: real) \<le> of_int (round_half_even (x / ?u))"
    by (simp only: of_int_le_iff)
  then have "of_int (2 ^ 52) * ?u \<le> of_int (round_half_even (x / ?u)) * ?u"
    using u by (simp only: mult_le_cancel_right_pos)
  then show "2 powr of_int e \<le> float64_round x"
    by (simp only: eq lo)
  have "x \<le> of_int (2 ^ 53) * ?u"
    using binade(2) [OF assms(1)] unfolding e_def [symmetric] hi by (rule less_imp_le)
  then have "x / ?u \<le> of_int (2 ^ 53)"
    using u by (simp only: pos_divide_le_eq)
  from round_half_even_mono [OF this]
  have "round_half_even (x / ?u) \<le> (2 ^ 53 :: int)"
    by (simp only: round_half_even_of_int)
  then have "of_int (round_half_even (x / ?u)) \<le> (of_int (2 ^ 53) :: real)"
    by (simp only: of_int_le_iff)
  then have "of_int (round_half_even (x / ?u)) * ?u \<le> of_int (2 ^ 53) * ?u"
    using u by (simp only: mult_le_cancel_right_pos)
  then show "float64_round x \<le> 2 powr (of_int e + 1)"
    by (simp only: eq hi)
qed


lemma float64_round_zero: "float64_round 0 = 0"
  by (simp add: float64_round_def)

lemma float64_round_minus: "float64_round (- x) = - float64_round x"
  by (simp add: float64_round_def Let_def)

lemma float64_round_pos_pos:
  assumes "0 < x"
  shows "0 < float64_round x"
proof -
  have "(0 :: real) < 2 powr of_int \<lfloor>log 2 x\<rfloor>" by simp
  with float64_round_pos(2) [OF assms] show ?thesis by linarith
qed

lemma float64_round_mono_pos:
  assumes "0 < x" and "x \<le> y"
  shows "float64_round x \<le> float64_round y"
proof -
  from assms have y: "0 < y" by simp
  let ?e = "\<lfloor>log 2 x\<rfloor>" and ?e' = "\<lfloor>log 2 y\<rfloor>"
  have "log 2 x \<le> log 2 y"
    using assms y by simp
  then have le: "?e \<le> ?e'"
    by (rule floor_mono)
  show ?thesis
  proof (cases "?e = ?e'")
    case True
    let ?u = "2 powr (of_int ?e - 52) :: real"
    have u: "0 < ?u" by simp
    have "x / ?u \<le> y / ?u"
      using assms(2) u by (simp only: divide_le_cancel) simp
    from round_half_even_mono [OF this]
    have "(of_int (round_half_even (x / ?u)) :: real) \<le> of_int (round_half_even (y / ?u))"
      by (simp only: of_int_le_iff)
    then have "of_int (round_half_even (x / ?u)) * ?u \<le> of_int (round_half_even (y / ?u)) * ?u"
      using u by (simp only: mult_le_cancel_right_pos)
    then show ?thesis
      unfolding float64_round_pos(1) [OF assms(1)] float64_round_pos(1) [OF y] True .
  next
    case False
    with le have "?e + 1 \<le> ?e'" by simp
    then have "(of_int ?e :: real) + 1 \<le> of_int ?e'" by linarith
    then have "(2 :: real) powr (of_int ?e + 1) \<le> 2 powr of_int ?e'"
      by (intro powr_mono) simp_all
    with float64_round_pos(3) [OF assms(1)] float64_round_pos(2) [OF y] show ?thesis
      by linarith
  qed
qed

lemma float64_round_mono:
  assumes "x \<le> y"
  shows "float64_round x \<le> float64_round y"
proof -
  consider (pos) "0 < x" | (zero) "x = 0" | (neg) "x < 0" "y < 0" | (mixed) "x < 0" "0 \<le> y"
    by linarith
  then show ?thesis
  proof cases
    case pos
    then show ?thesis by (rule float64_round_mono_pos [OF _ assms])
  next
    case zero
    with assms have "y = 0 \<or> 0 < y" by linarith
    with zero float64_round_pos_pos [of y] show ?thesis
      by (auto simp: float64_round_zero)
  next
    case neg
    then have "0 < - y" and "- y \<le> - x" using assms by simp_all
    from float64_round_mono_pos [OF this] show ?thesis
      by (simp add: float64_round_minus)
  next
    case mixed
    then have "0 < float64_round (- x)"
      by (intro float64_round_pos_pos) simp
    then have 1: "float64_round x < 0"
      by (simp add: float64_round_minus)
    from mixed have "y = 0 \<or> 0 < y" by linarith
    with float64_round_pos_pos [of y] have "0 \<le> float64_round y"
      by (auto simp: float64_round_zero)
    with 1 show ?thesis by linarith
  qed
qed

lemma float64_round_int_pos:
  assumes "0 < k" and "k \<le> 2 ^ 53"
  shows "float64_round (of_int k) = of_int k"
proof -
  let ?x = "of_int k :: real"
  let ?e = "\<lfloor>log 2 ?x\<rfloor>"
  let ?u = "2 powr (of_int ?e - 52) :: real"
  have x: "0 < ?x" and x1: "1 \<le> ?x" using assms(1) by simp_all
  have e0: "0 \<le> ?e"
    using x1 by simp
  have "?x \<le> 2 ^ 53"
    using assms(2) by (metis of_int_le_iff of_int_numeral of_int_power)
  then have "log 2 ?x \<le> log 2 (2 ^ 53)"
    using x by simp
  moreover have "log 2 ((2 :: real) ^ 53) = 53"
    using log_pow_cancel [of 2 53] by simp
  ultimately have "log 2 ?x \<le> 53"
    by simp
  then have e53: "?e \<le> 53"
    by (simp add: floor_le_iff)
  show ?thesis
  proof (cases "?e \<le> 52")
    case True
    define n where "n = nat (52 - ?e)"
    have "of_int ?e - 52 = - real n"
      using True by (simp add: n_def)
    then have u: "?u = inverse (2 ^ n)"
      by (simp add: powr_minus powr_realpow)
    have "?x / ?u = of_int (k * 2 ^ n)"
      by (simp add: u divide_inverse)
    then have "round_half_even (?x / ?u) = k * 2 ^ n"
      by (simp only: round_half_even_of_int)
    then show ?thesis
      unfolding float64_round_pos(1) [OF x] by (simp add: u divide_inverse)
  next
    case False
    with e53 have e: "?e = 53" by linarith
    have "2 powr of_int ?e \<le> ?x"
      by (rule binade(1) [OF x])
    then have "(2 ^ 53 :: real) \<le> ?x"
      by (simp add: e)
    then have "2 ^ 53 \<le> k"
      by (metis of_int_le_iff of_int_numeral of_int_power)
    with assms(2) have k: "k = 2 ^ 53" by simp
    have u: "?u = 2"
      by (simp add: e)
    have "?x / ?u = of_int (2 ^ 52)"
      unfolding u by (simp add: k)
    then have "round_half_even (?x / ?u) = 2 ^ 52"
      by (simp only: round_half_even_of_int)
    then show ?thesis
      unfolding float64_round_pos(1) [OF x] u by (simp add: k)
  qed
qed

lemma float64_round_int:
  assumes "\<bar>k\<bar> \<le> 2 ^ 53"
  shows "float64_round (of_int k) = of_int k"
proof -
  consider "0 < k" | "k = 0" | "k < 0" by linarith
  then show ?thesis
  proof cases
    case 1
    with assms show ?thesis by (intro float64_round_int_pos) simp_all
  next
    case 2
    then show ?thesis by (simp add: float64_round_zero)
  next
    case 3
    with assms have "float64_round (of_int (- k)) = of_int (- k)"
      by (intro float64_round_int_pos) simp_all
    then show ?thesis
      by (simp add: float64_round_minus)
  qed
qed

lemma go_quot_rem_nonneg:
  assumes "0 \<le> d"
  shows "go_quot d Second = d div Second" and "go_rem d Second = d mod Second"
  using assms by (simp_all add: go_quot_def go_rem_def Second_def minus_mult_div_eq_mod)

lemma go_quot_rem_neg:
  assumes "d < 0"
  shows "go_quot d Second = - ((- d) div Second)" and "go_rem d Second = - ((- d) mod Second)"
proof -
  show q: "go_quot d Second = - ((- d) div Second)"
    using assms by (simp add: go_quot_def Second_def)
  have "(- d) mod Second = - d - Second * ((- d) div Second)"
    by (simp add: minus_mult_div_eq_mod)
  then show "go_rem d Second = - ((- d) mod Second)"
    by (simp add: go_rem_def q)
qed

lemma int_of_float_mono:
  assumes "x \<le> y"
  shows "int_of_float x \<le> int_of_float y"
proof (cases "0 \<le> x")
  case True
  with assms have "0 \<le> y" by simp
  with True floor_mono [OF assms] show ?thesis
    by (simp add: int_of_float_def)
next
  case False
  then have neg: "\<lceil>x\<rceil> \<le> 0"
    by (simp add: ceiling_le_zero)
  show ?thesis
  proof (cases "0 \<le> y")
    case True
    then have "0 \<le> \<lfloor>y\<rfloor>" by simp
    with neg have "\<lceil>x\<rceil> \<le> \<lfloor>y\<rfloor>" by (rule order_trans)
    with False True show ?thesis
      by (simp add: int_of_float_def)
  next
    case y: False
    with False ceiling_mono [OF assms] show ?thesis
      by (simp add: int_of_float_def)
  qed
qed

lemma int_of_float_of_int: "int_of_float (of_int k) = k"
  by (simp add: int_of_float_def)


lemma rounding_mono: "x \<le> y \<Longrightarrow> float64_round x \<le> float64_round y"
  by (rule float64_round_mono)

lemma rounding_int: "\<bar>k\<bar> \<le> 2 ^ 53 \<Longrightarrow> float64_round (of_int k) = of_int k"
  by (rule float64_round_int)

lemma rounding_consts:
  "float64_round 0 = 0" "float64_round 1 = 1" "float64_round (- 1) = - 1"
  using rounding_int [of 0] rounding_int [of 1] rounding_int [of "- 1"]
  by simp_all

text \<open>The seconds of a duration that is not negative: between the whole seconds and one more.\<close>

lemma Seconds_nonneg:
  assumes d: "0 \<le> d" "d \<le> maxDuration"
  shows "Duration_Seconds d =
           float64_round (of_int (d div Second) + float64_round (of_int (d mod Second) / 1000000000))"
    and "of_int (d div Second) \<le> Duration_Seconds d"
    and "Duration_Seconds d \<le> of_int (d div Second) + 1"
    and "d mod Second = 0 \<Longrightarrow> Duration_Seconds d = of_int (d div Second)"
proof -
  let ?q = "d div Second" and ?r = "d mod Second"
  have q: "0 \<le> ?q" "?q \<le> 9223372036"
    using d by (simp_all add: Second_def maxDuration_def)
  have r: "0 \<le> ?r" "?r < 1000000000"
    by (simp_all add: Second_def)
  have rq: "float64_round (of_int ?q) = of_int ?q"
    using q by (simp add: rounding_int)
  have "float64_round (of_int (?q + 1)) = of_int (?q + 1)"
    by (rule rounding_int) (use q in simp)
  then have rq1: "float64_round (of_int ?q + 1) = of_int ?q + 1"
    by simp
  have rr: "float64_round (of_int ?r) = of_int ?r"
    using r by (simp add: rounding_int)
  show eq: "Duration_Seconds d = float64_round (of_int ?q + float64_round (of_int ?r / 1000000000))"
    using d(1) by (simp add: Duration_Seconds_def go_quot_rem_nonneg rq rr)
  have "float64_round 0 \<le> float64_round (of_int ?r / 1000000000)"
    using r by (intro rounding_mono) simp
  then have f0: "0 \<le> float64_round (of_int ?r / 1000000000)"
    by (simp add: rounding_consts)
  have "float64_round (of_int ?r / 1000000000) \<le> float64_round 1"
    using r by (intro rounding_mono) simp
  then have f1: "float64_round (of_int ?r / 1000000000) \<le> 1"
    by (simp add: rounding_consts)
  have "float64_round (of_int ?q) \<le> float64_round (of_int ?q + float64_round (of_int ?r / 1000000000))"
    using f0 by (intro rounding_mono) simp
  then show "of_int ?q \<le> Duration_Seconds d"
    by (simp add: eq rq)
  have "float64_round (of_int ?q + float64_round (of_int ?r / 1000000000)) \<le> float64_round (of_int ?q + 1)"
    using f1 by (intro rounding_mono) simp
  then show "Duration_Seconds d \<le> of_int ?q + 1"
    by (simp add: eq rq1)
  show "Duration_Seconds d = of_int ?q" if "?r = 0"
    by (simp add: eq that rq rounding_consts)
qed

lemma Seconds_neg:
  assumes d: "d < 0" "minDuration \<le> d"
  shows "Duration_Seconds d =
           float64_round (- of_int ((- d) div Second) + float64_round (- of_int ((- d) mod Second) / 1000000000))"
    and "- of_int ((- d) div Second) - 1 \<le> Duration_Seconds d"
    and "Duration_Seconds d \<le> - of_int ((- d) div Second)"
proof -
  let ?q = "(- d) div Second" and ?r = "(- d) mod Second"
  have q: "0 \<le> ?q" "?q \<le> 9223372036"
    using d by (simp_all add: Second_def minDuration_def)
  have r: "0 \<le> ?r" "?r < 1000000000"
    by (simp_all add: Second_def)
  have "float64_round (of_int (- ?q)) = of_int (- ?q)"
    by (rule rounding_int) (use q in simp)
  then have rq: "float64_round (- of_int ?q) = - of_int ?q"
    by simp
  have "float64_round (of_int (- ?q - 1)) = of_int (- ?q - 1)"
    by (rule rounding_int) (use q in simp)
  then have rq1: "float64_round (- of_int ?q - 1) = - of_int ?q - 1"
    by simp
  have "float64_round (of_int (- ?r)) = of_int (- ?r)"
    by (rule rounding_int) (use r in simp)
  then have rr: "float64_round (- of_int ?r) = - of_int ?r"
    by simp
  show eq: "Duration_Seconds d = float64_round (- of_int ?q + float64_round (- of_int ?r / 1000000000))"
    using d(1) rq rr by (simp add: Duration_Seconds_def go_quot_rem_neg)
  have "float64_round (- of_int ?r / 1000000000) \<le> float64_round 0"
    using r by (intro rounding_mono) simp
  then have f0: "float64_round (- of_int ?r / 1000000000) \<le> 0"
    by (simp add: rounding_consts)
  have "float64_round (- 1) \<le> float64_round (- of_int ?r / 1000000000)"
    using r by (intro rounding_mono) simp
  then have f1: "- 1 \<le> float64_round (- of_int ?r / 1000000000)"
    by (simp add: rounding_consts)
  have "float64_round (- of_int ?q - 1) \<le> float64_round (- of_int ?q + float64_round (- of_int ?r / 1000000000))"
    using f1 by (intro rounding_mono) simp
  then show "- of_int ?q - 1 \<le> Duration_Seconds d"
    using rq1 by (simp add: eq)
  have "float64_round (- of_int ?q + float64_round (- of_int ?r / 1000000000)) \<le> float64_round (- of_int ?q)"
    using f0 by (intro rounding_mono) simp
  then show "Duration_Seconds d \<le> - of_int ?q"
    using rq by (simp add: eq)
qed


lemma Duration_Seconds_mono:
  assumes range: "minDuration \<le> d" "d' \<le> maxDuration" and le: "d \<le> d'"
  shows "Duration_Seconds d \<le> Duration_Seconds d'"
proof -
  have S: "0 < Second" by (simp add: Second_def)
  consider (pos) "0 \<le> d" | (mixed) "d < 0" "0 \<le> d'" | (neg) "d' < 0"
    using le by linarith
  then show ?thesis
  proof cases
    case pos
    then have pos': "0 \<le> d'" and up: "d \<le> maxDuration"
      using le range by simp_all
    note a = Seconds_nonneg [OF pos up] and b = Seconds_nonneg [OF pos' range(2)]
    have q: "d div Second \<le> d' div Second"
      using le S by (rule zdiv_mono1)
    show ?thesis
    proof (cases "d div Second = d' div Second")
      case True
      have "Second * (d div Second) = Second * (d' div Second)"
        using True by simp
      moreover have "d mod Second = d - Second * (d div Second)"
        and "d' mod Second = d' - Second * (d' div Second)"
        by (simp_all add: minus_mult_div_eq_mod)
      ultimately have "d mod Second \<le> d' mod Second"
        using le by linarith
      then have "float64_round (of_int (d mod Second) / 1000000000) \<le> float64_round (of_int (d' mod Second) / 1000000000)"
        by (intro rounding_mono) simp
      then have "float64_round (of_int (d div Second) + float64_round (of_int (d mod Second) / 1000000000)) \<le>
                 float64_round (of_int (d' div Second) + float64_round (of_int (d' mod Second) / 1000000000))"
        unfolding True by (intro rounding_mono) simp
      then show ?thesis
        by (simp only: a(1) b(1))
    next
      case False
      with q have "d div Second + 1 \<le> d' div Second" by simp
      then have "(of_int (d div Second) :: real) + 1 \<le> of_int (d' div Second)"
        by linarith
      with a(3) b(2) show ?thesis by linarith
    qed
  next
    case mixed
    have low: "minDuration \<le> d" by (rule range(1))
    note a = Seconds_neg [OF mixed(1) low] and b = Seconds_nonneg [OF mixed(2) range(2)]
    have "0 \<le> (- d) div Second" and "0 \<le> d' div Second"
      using mixed S by (simp_all add: pos_imp_zdiv_nonneg_iff)
    then have "- (of_int ((- d) div Second) :: real) \<le> of_int (d' div Second)"
      by linarith
    with a(3) b(2) show ?thesis by linarith
  next
    case neg
    then have neg': "d < 0" and low': "minDuration \<le> d'"
      using le range by simp_all
    note a = Seconds_neg [OF neg' range(1)] and b = Seconds_neg [OF neg low']
    have q: "(- d') div Second \<le> (- d) div Second"
      using le S by (intro zdiv_mono1) simp_all
    show ?thesis
    proof (cases "(- d) div Second = (- d') div Second")
      case True
      have "Second * ((- d) div Second) = Second * ((- d') div Second)"
        using True by simp
      moreover have "(- d) mod Second = - d - Second * ((- d) div Second)"
        and "(- d') mod Second = - d' - Second * ((- d') div Second)"
        by (simp_all add: minus_mult_div_eq_mod)
      ultimately have "(- d') mod Second \<le> (- d) mod Second"
        using le by linarith
      then have "float64_round (- of_int ((- d) mod Second) / 1000000000) \<le>
                 float64_round (- of_int ((- d') mod Second) / 1000000000)"
        by (intro rounding_mono) simp
      then have "float64_round (- of_int ((- d) div Second) + float64_round (- of_int ((- d) mod Second) / 1000000000)) \<le>
                 float64_round (- of_int ((- d') div Second) + float64_round (- of_int ((- d') mod Second) / 1000000000))"
        unfolding True by (intro rounding_mono) simp
      then show ?thesis
        by (simp only: a(1) b(1))
    next
      case False
      with q have "(- d') div Second + 1 \<le> (- d) div Second" by simp
      then have "- (of_int ((- d) div Second) :: real) \<le> - of_int ((- d') div Second) - 1"
        by linarith
      with a(3) b(2) show ?thesis by linarith
    qed
  qed
qed

lemma whole_seconds_within:
  assumes range: "minDuration \<le> d" "d \<le> maxDuration" and le: "d \<le> timelimit * Second"
  shows "int_of_float (Duration_Seconds d) \<le> timelimit"
proof (cases "0 \<le> d")
  case True
  note a = Seconds_nonneg [OF True range(2)]
  show ?thesis
  proof (cases "d mod Second = 0")
    case zero: True
    moreover have "d mod Second = d - Second * (d div Second)"
      by (simp add: minus_mult_div_eq_mod)
    ultimately have "d = Second * (d div Second)"
      by linarith
    with le have "(d div Second) * Second \<le> timelimit * Second"
      by (simp add: mult.commute)
    then have "d div Second \<le> timelimit"
      by (simp add: Second_def)
    then show ?thesis
      by (simp add: a(4) [OF zero] int_of_float_of_int)
  next
    case False
    then have "0 < d mod Second"
      using pos_mod_sign [of Second d] by (simp add: Second_def less_le)
    moreover have "d mod Second = d - Second * (d div Second)"
      by (simp add: minus_mult_div_eq_mod)
    ultimately have "Second * (d div Second) < d"
      by linarith
    with le have "(d div Second) * Second < timelimit * Second"
      by (simp add: mult.commute)
    then have "d div Second < timelimit"
      by (simp add: Second_def)
    then have up: "d div Second + 1 \<le> timelimit" by simp
    have "Duration_Seconds d \<le> of_int (d div Second + 1)"
      using a(3) by simp
    from int_of_float_mono [OF this] have "int_of_float (Duration_Seconds d) \<le> d div Second + 1"
      by (simp only: int_of_float_of_int)
    with up show ?thesis by simp
  qed
next
  case False
  then have neg: "d < 0" by simp
  note a = Seconds_neg [OF neg range(1)]
  have "Duration_Seconds d \<le> of_int (- ((- d) div Second))"
    using a(3) by simp
  from int_of_float_mono [OF this]
  have 1: "int_of_float (Duration_Seconds d) \<le> - ((- d) div Second)"
    by (simp only: int_of_float_of_int)
  have "(- timelimit) * Second \<le> - d"
    using le by simp
  then have "((- timelimit) * Second) div Second \<le> (- d) div Second"
    by (rule zdiv_mono1) (simp add: Second_def)
  then have "- timelimit \<le> (- d) div Second"
    by (simp add: Second_def)
  with 1 show ?thesis by simp
qed

lemma time_Since_range:
  "minDuration \<le> time_Since now t" "time_Since now t \<le> maxDuration"
  by (simp_all add: time_Since_def Let_def minDuration_def maxDuration_def)

lemma time_Since_antimono: "t \<le> t' \<Longrightarrow> time_Since now t' \<le> time_Since now t"
  by (simp add: time_Since_def Let_def minDuration_def maxDuration_def)

lemma time_Since_future: "now \<le> t \<Longrightarrow> time_Since now t \<le> 0"
  by (simp add: time_Since_def Let_def minDuration_def maxDuration_def)

lemma VerifyTimestamp_iff:
  "VerifyTimestamp now timestamp timelimit \<longleftrightarrow>
     int_of_float (Duration_Seconds (time_Since now (time_Unix (sint timestamp) 10)))
       \<le> timelimit"
  by (simp add: VerifyTimestamp_def Let_def not_less)

text \<open>
  The timestamp as the code reads it. \<open>int64(timestamp)\<close> is the signed reading of the
  \<open>uint64\<close>, and \<open>time.Unix\<close> adds \<open>unixToInternal\<close> to the seconds in an \<open>int64\<close>.
  Below \<open>2 ^ 63 - unixToInternal\<close> nothing wraps and the instant is
  \<open>timestamp\<close> seconds and 10 nanoseconds after the epoch; from there on the sum or
  the conversion wraps, and the instant lies before the epoch.
\<close>

lemma unixToInternal_eq: "unixToInternal = 62135596800"
  by (simp add: unixToInternal_def)

lemma int64_wrap_in_range: "- (2 ^ 63) \<le> x \<Longrightarrow> x < 2 ^ 63 \<Longrightarrow> int64_wrap x = x"
  by (simp add: int64_wrap_def)

lemma int64_wrap_above:
  assumes "2 ^ 63 \<le> x" "x < 2 ^ 63 + 2 ^ 64"
  shows "int64_wrap x = x - 2 ^ 64"
proof -
  have "(x + 2 ^ 63) mod 2 ^ 64 = x + 2 ^ 63 - 2 ^ 64"
    by (rule int_mod_pos_eq [of _ _ 1]) (use assms in simp_all)
  then show ?thesis
    by (simp add: int64_wrap_def)
qed

lemma sint_small:
  fixes w :: "64 word"
  assumes "uint w < 2 ^ 63"
  shows "sint w = uint w"
proof -
  have "- (2 ^ 63) \<le> uint w"
    by (rule order_trans [of _ 0]) simp_all
  then have "signed_take_bit 63 (uint w) = uint w"
    using assms by (rule signed_take_bit_int_eq_self)
  then show ?thesis
    by (simp add: sint_uint)
qed

lemma sint_big:
  fixes w :: "64 word"
  assumes "2 ^ 63 \<le> uint w"
  shows "sint w = uint w - 2 ^ 64"
proof -
  have lt: "uint w < 2 ^ 64"
    using uint_bounded [of w] by simp
  have "sint w = signed_take_bit 63 (uint w)"
    by (simp add: sint_uint)
  also have "\<dots> = int64_wrap (uint w)"
    by (simp add: signed_take_bit_eq_take_bit_shift take_bit_eq_mod int64_wrap_def)
  also have "\<dots> = uint w - 2 ^ 64"
    using assms lt by (intro int64_wrap_above) simp_all
  finally show ?thesis .
qed

lemma time_Unix_small:
  fixes timestamp :: "64 word"
  assumes "uint timestamp < 2 ^ 63 - unixToInternal"
  shows "time_Unix (sint timestamp) 10 = uint timestamp * Second + 10"
proof -
  from assms have lt: "uint timestamp < 2 ^ 63"
    by (simp add: unixToInternal_eq)
  have "int64_wrap (uint timestamp + unixToInternal) = uint timestamp + unixToInternal"
    using assms by (intro int64_wrap_in_range) (simp_all add: unixToInternal_eq)
  then show ?thesis
    by (simp add: time_Unix_def sint_small [OF lt])
qed

lemma time_Unix_large:
  fixes timestamp :: "64 word"
  assumes "2 ^ 63 - unixToInternal \<le> uint timestamp"
  shows "time_Unix (sint timestamp) 10 \<le> - 999999990"
proof (cases "uint timestamp < 2 ^ 63")
  case True
  have "int64_wrap (uint timestamp + unixToInternal) = uint timestamp + unixToInternal - 2 ^ 64"
    using assms True by (intro int64_wrap_above) (simp_all add: unixToInternal_eq)
  then have "time_Unix (sint timestamp) 10 = (uint timestamp - 2 ^ 64) * Second + 10"
    by (simp add: time_Unix_def sint_small [OF True])
  moreover have "uint timestamp - 2 ^ 64 \<le> - 1"
    using True by simp
  then have "(uint timestamp - 2 ^ 64) * Second \<le> (- 1) * Second"
    by (intro mult_right_mono) (simp_all add: Second_def)
  ultimately show ?thesis
    by (simp add: Second_def)
next
  case False
  then have big: "2 ^ 63 \<le> uint timestamp" by simp
  have lt: "uint timestamp < 2 ^ 64"
    using uint_bounded [of timestamp] by simp
  have s: "sint timestamp = uint timestamp - 2 ^ 64"
    by (rule sint_big [OF big])
  have "int64_wrap (sint timestamp + unixToInternal) = sint timestamp + unixToInternal"
    using big lt by (intro int64_wrap_in_range) (simp_all add: unixToInternal_eq s)
  then have "time_Unix (sint timestamp) 10 = sint timestamp * Second + 10"
    by (simp add: time_Unix_def)
  moreover have "sint timestamp \<le> - 1"
    using lt by (simp add: s)
  then have "sint timestamp * Second \<le> (- 1) * Second"
    by (intro mult_right_mono) (simp_all add: Second_def)
  ultimately show ?thesis
    by (simp add: Second_def)
qed

lemma expired:
  assumes tl: "0 \<le> timelimit" "timelimit < 9223372036"
    and old: "(timelimit + 1) * Second \<le> now - t"
  shows "timelimit < int_of_float (Duration_Seconds (time_Since now t))"
proof -
  let ?d = "time_Since now t"
  have lim: "(timelimit + 1) * Second \<le> maxDuration"
  proof -
    from tl have "(timelimit + 1) * Second \<le> 9223372036 * Second"
      by (intro mult_right_mono) (simp_all add: Second_def)
    then show ?thesis by (simp add: Second_def maxDuration_def)
  qed
  have pos: "0 \<le> (timelimit + 1) * Second"
    using tl by (simp add: Second_def)
  have d: "(timelimit + 1) * Second \<le> ?d"
    using lim pos old by (simp add: time_Since_def Let_def minDuration_def)
  then have d0: "0 \<le> ?d"
    using pos by linarith
  from d have "((timelimit + 1) * Second) div Second \<le> ?d div Second"
    by (rule zdiv_mono1) (simp add: Second_def)
  then have q: "timelimit + 1 \<le> ?d div Second"
    by (simp add: Second_def)
  have "of_int (?d div Second) \<le> Duration_Seconds ?d"
    by (rule Seconds_nonneg(2) [OF d0 time_Since_range(2)])
  from int_of_float_mono [OF this] have "?d div Second \<le> int_of_float (Duration_Seconds ?d)"
    by (simp only: int_of_float_of_int)
  with q show ?thesis by linarith
qed

lemma within_limit:
  assumes tl: "0 \<le> timelimit" and le: "now - t \<le> timelimit * Second"
  shows "int_of_float (Duration_Seconds (time_Since now t)) \<le> timelimit"
proof -
  have "0 \<le> timelimit * Second"
    using tl by (simp add: Second_def)
  with le have "time_Since now t \<le> timelimit * Second"
    by (simp add: time_Since_def Let_def minDuration_def maxDuration_def)
  then show ?thesis
    by (rule whole_seconds_within [OF time_Since_range])
qed

text \<open>Acceptance is kept when the instant read from the timestamp is moved later.\<close>

lemma VerifyTimestamp_later_instant:
  assumes "VerifyTimestamp now timestamp timelimit"
    and "time_Unix (sint timestamp) 10 \<le> time_Unix (sint later) 10"
  shows "VerifyTimestamp now later timelimit"
proof -
  let ?t = "time_Unix (sint timestamp) 10" and ?t' = "time_Unix (sint later) 10"
  from assms(2) have "time_Since now ?t' \<le> time_Since now ?t"
    by (simp add: time_Since_antimono)
  then have "Duration_Seconds (time_Since now ?t') \<le> Duration_Seconds (time_Since now ?t)"
    by (intro Duration_Seconds_mono time_Since_range)
  from int_of_float_mono [OF this] assms(1) show ?thesis
    unfolding VerifyTimestamp_iff by linarith
qed

text \<open>
  Claim C10 as stated does not hold for every future timestamp. The timestamp
  \<open>2 ^ 63 - 62135596800 = 9223371974719179008\<close> is a positive \<open>int64\<close> and, taken as
  seconds, far ahead of the clock reading \<open>1700000600\<close> seconds; \<open>time.Unix\<close> wraps
  it to an instant before the epoch, and \<open>VerifyTimestamp\<close> returns false at a time
  limit of 600 seconds.
\<close>

theorem far_future_counterexample:
  "sint (9223371974719179008 :: 64 word) = 9223371974719179008 \<and>
   (1700000600000000010 :: int) \<le> uint (9223371974719179008 :: 64 word) * Second + 10 \<and>
   \<not> VerifyTimestamp 1700000600000000010 9223371974719179008 600"
proof -
  let ?ts = "9223371974719179008 :: 64 word"
  have u: "uint ?ts = 9223371974719179008"
    by simp
  have s: "sint ?ts = 9223371974719179008"
    using sint_small [of ?ts] by (simp only: u) simp
  have "2 ^ 63 - unixToInternal \<le> uint ?ts"
    by (simp add: unixToInternal_eq)
  from time_Unix_large [OF this]
  have "(600 + 1) * Second \<le> 1700000600000000010 - time_Unix (sint ?ts) 10"
    by (simp add: Second_def)
  from expired [OF _ _ this]
  have "\<not> VerifyTimestamp 1700000600000000010 ?ts 600"
    unfolding VerifyTimestamp_iff by simp
  with s u show ?thesis
    by (simp add: Second_def)
qed

text \<open>
  Claim C10, amended: for a time limit that is not negative and a timestamp below
  \<open>2 ^ 63 - 62135596800\<close>, \<open>VerifyTimestamp(timestamp, timelimit)\<close> returns true when
  the time from the timestamp (its seconds and 10 nanoseconds) to \<open>now\<close> is at most
  \<open>timelimit\<close> seconds, and so for every such timestamp in the future, with no upper
  bound below \<open>2 ^ 63 - 62135596800\<close>; it returns false when that time is
  \<open>timelimit + 1\<close> seconds or more, the expiry check. A timestamp of
  \<open>2 ^ 63 - 62135596800\<close> or more is read as an instant before the epoch and is
  rejected once the clock is \<open>timelimit + 1\<close> seconds past the epoch. The rejections
  are for a time limit below 9223372036 seconds, the longest \<open>Duration\<close>.
\<close>

theorem VerifyTimestamp_window:
  "(uint timestamp < 2 ^ 63 - unixToInternal \<and> 0 \<le> timelimit \<longrightarrow>
      (now - (uint timestamp * Second + 10) \<le> timelimit * Second \<longrightarrow>
         VerifyTimestamp now timestamp timelimit) \<and>
      (now \<le> uint timestamp * Second + 10 \<longrightarrow>
         VerifyTimestamp now timestamp timelimit) \<and>
      (timelimit < 9223372036 \<and>
       (timelimit + 1) * Second \<le> now - (uint timestamp * Second + 10) \<longrightarrow>
         \<not> VerifyTimestamp now timestamp timelimit)) \<and>
   (2 ^ 63 - unixToInternal \<le> uint timestamp \<and> 0 \<le> timelimit \<and>
    timelimit < 9223372036 \<and> (timelimit + 1) * Second \<le> now \<longrightarrow>
      \<not> VerifyTimestamp now timestamp timelimit)"
proof -
  let ?t = "uint timestamp * Second + 10"
  have accept: "VerifyTimestamp now timestamp timelimit"
    if "uint timestamp < 2 ^ 63 - unixToInternal" "0 \<le> timelimit"
      "now - ?t \<le> timelimit * Second"
    unfolding VerifyTimestamp_iff time_Unix_small [OF that(1)]
    by (rule within_limit [OF that(2,3)])
  have future: "VerifyTimestamp now timestamp timelimit"
    if "uint timestamp < 2 ^ 63 - unixToInternal" "0 \<le> timelimit" "now \<le> ?t"
  proof -
    have "0 \<le> timelimit * Second"
      using that(2) by (simp add: Second_def)
    with that(3) have "now - ?t \<le> timelimit * Second"
      by linarith
    with that(1,2) show ?thesis by (rule accept)
  qed
  have reject: "\<not> VerifyTimestamp now timestamp timelimit"
    if "uint timestamp < 2 ^ 63 - unixToInternal" "0 \<le> timelimit" "timelimit < 9223372036"
      "(timelimit + 1) * Second \<le> now - ?t"
    using expired [OF that(2,3,4)]
    unfolding VerifyTimestamp_iff time_Unix_small [OF that(1)] by simp
  have wrapped: "\<not> VerifyTimestamp now timestamp timelimit"
    if "2 ^ 63 - unixToInternal \<le> uint timestamp" "0 \<le> timelimit" "timelimit < 9223372036"
      "(timelimit + 1) * Second \<le> now"
  proof -
    from time_Unix_large [OF that(1)] that(4)
    have "(timelimit + 1) * Second \<le> now - time_Unix (sint timestamp) 10"
      by linarith
    from expired [OF that(2,3) this] show ?thesis
      unfolding VerifyTimestamp_iff by simp
  qed
  from accept future reject wrapped show ?thesis
    by blast
qed

theorem VerifyTimestamp_window_witness:
  "uint (1700000000 :: 64 word) < 2 ^ 63 - unixToInternal \<and>
   uint (4000000000 :: 64 word) < 2 ^ 63 - unixToInternal \<and>
   2 ^ 63 - unixToInternal \<le> uint (18446744073709551615 :: 64 word) \<and>
   (0 :: int) \<le> 600 \<and> (600 :: int) < 9223372036 \<and>
   1700000600000000010 - (uint (1700000000 :: 64 word) * Second + 10) \<le> 600 * Second \<and>
   VerifyTimestamp 1700000600000000010 1700000000 600 \<and>
   1700000600000000010 \<le> uint (4000000000 :: 64 word) * Second + 10 \<and>
   VerifyTimestamp 1700000600000000010 4000000000 600 \<and>
   (600 + 1) * Second \<le> 1700000601000000010 - (uint (1700000000 :: 64 word) * Second + 10) \<and>
   \<not> VerifyTimestamp 1700000601000000010 1700000000 600 \<and>
   (600 + 1) * Second \<le> 1700000600000000010 \<and>
   \<not> VerifyTimestamp 1700000600000000010 18446744073709551615 600"
proof -
  from VerifyTimestamp_window [of 1700000000 600 1700000600000000010]
  have 1: "VerifyTimestamp 1700000600000000010 1700000000 600"
    by (simp add: unixToInternal_eq Second_def)
  from VerifyTimestamp_window [of 4000000000 600 1700000600000000010]
  have 2: "VerifyTimestamp 1700000600000000010 4000000000 600"
    by (simp add: unixToInternal_eq Second_def)
  from VerifyTimestamp_window [of 1700000000 600 1700000601000000010]
  have 3: "\<not> VerifyTimestamp 1700000601000000010 1700000000 600"
    by (simp add: unixToInternal_eq Second_def)
  from VerifyTimestamp_window [of 18446744073709551615 600 1700000600000000010]
  have 4: "\<not> VerifyTimestamp 1700000600000000010 18446744073709551615 600"
    by (simp add: unixToInternal_eq Second_def)
  from 1 2 3 4 show ?thesis
    by (simp add: unixToInternal_eq Second_def)
qed

end
